theory Spec2Isabelle
  imports Complex_Main
begin

section \<open>The simulation core of \<open>src/game.js\<close> (the variant with upgrades and the AI)\<close>

text \<open>
  The file \<open>src/game.js\<close> holds three variants of the game one after the other. The
  variant modelled here is the second one (lines 765 to 2000): it is the only one with
  \<open>Building.startUpgrade\<close>, \<open>AIController\<close> and \<open>MainScene.sendSoldiers\<close>.

  Conventions of the embedding:
  \<^item> JavaScript objects held by reference in \<open>scene.buildings\<close> are addressed by their
    index in that array (the array is filled once in \<open>create\<close> and never reordered);
  \<^item> troop counts, levels and \<open>Date.now()\<close> timestamps are integers (\<open>int\<close>);
  \<^item> coordinates and probabilities are JavaScript numbers; their finite arithmetic is
    idealised to \<open>real\<close> (rounding is not modelled), and the non-finite results that
    a division can produce are kept explicit in the type \<open>jsnum\<close>;
  \<^item> \<open>Date.now()\<close> and \<open>Math.random()\<close> are parameters of the functions that call them;
  \<^item> rendering calls (tweens, texts, graphics, camera shake) and the derived aggregate
    counters of \<open>calculateSoldierCounts\<close>, which nothing reads back, are left out.
\<close>

subsection \<open>JavaScript numbers that may be non-finite\<close>

datatype jsnum = Fin real | PInf | NInf | NaN

fun jneg :: "jsnum \<Rightarrow> jsnum" where
  "jneg (Fin a) = Fin (- a)"
| "jneg PInf = NInf"
| "jneg NInf = PInf"
| "jneg NaN = NaN"

fun jadd :: "jsnum \<Rightarrow> jsnum \<Rightarrow> jsnum" where
  "jadd NaN _ = NaN"
| "jadd _ NaN = NaN"
| "jadd (Fin a) (Fin b) = Fin (a + b)"
| "jadd (Fin a) PInf = PInf"
| "jadd (Fin a) NInf = NInf"
| "jadd PInf (Fin b) = PInf"
| "jadd NInf (Fin b) = NInf"
| "jadd PInf PInf = PInf"
| "jadd NInf NInf = NInf"
| "jadd PInf NInf = NaN"
| "jadd NInf PInf = NaN"

definition jsub :: "jsnum \<Rightarrow> jsnum \<Rightarrow> jsnum" where
  "jsub a b = jadd a (jneg b)"

text \<open>The sign of an infinite product; a zero factor gives \<open>NaN\<close>.\<close>

definition jinf_times :: "bool \<Rightarrow> real \<Rightarrow> jsnum" where
  "jinf_times positive a =
     (if a = 0 then NaN else if (0 < a) = positive then PInf else NInf)"

fun jmul :: "jsnum \<Rightarrow> jsnum \<Rightarrow> jsnum" where
  "jmul NaN _ = NaN"
| "jmul _ NaN = NaN"
| "jmul (Fin a) (Fin b) = Fin (a * b)"
| "jmul (Fin a) PInf = jinf_times True a"
| "jmul (Fin a) NInf = jinf_times False a"
| "jmul PInf (Fin b) = jinf_times True b"
| "jmul NInf (Fin b) = jinf_times False b"
| "jmul PInf PInf = PInf"
| "jmul NInf NInf = PInf"
| "jmul PInf NInf = NInf"
| "jmul NInf PInf = NInf"

text \<open>
  Division of two finite numbers, the only division of the simulation
  (\<open>dx / distance\<close> in the \<open>Soldier\<close> constructor): \<open>0 / 0\<close> is \<open>NaN\<close> and
  \<open>a / 0\<close> is an infinity. The divisor there is a square root, so a zero divisor is
  \<open>+0\<close> and the sign of the infinity is the sign of \<open>a\<close>.
\<close>

definition jdiv :: "real \<Rightarrow> real \<Rightarrow> jsnum" where
  "jdiv a b =
     (if b \<noteq> 0 then Fin (a / b)
      else if a = 0 then NaN
      else if 0 < a then PInf else NInf)"

text \<open>The comparison \<open>a < c\<close> against a finite constant; false for \<open>NaN\<close>.\<close>

fun jless :: "jsnum \<Rightarrow> real \<Rightarrow> bool" where
  "jless (Fin a) c = (a < c)"
| "jless NInf c = True"
| "jless PInf c = False"
| "jless NaN c = False"

fun is_finite :: "jsnum \<Rightarrow> bool" where
  "is_finite (Fin a) = True"
| "is_finite _ = False"

subsection \<open>Buildings\<close>

text \<open>
  \<open>ownership\<close> is a string in the source; only \<open>'player'\<close>, \<open>'enemy'\<close> and
  \<open>'neutral'\<close> are ever stored.
\<close>

datatype ownership = Player | Enemy | Neutral

record building =
  pos_x :: real
  pos_y :: real
  soldiers :: int
  lastUpdate :: int
  isSelected :: bool
  ownership :: ownership
  isPlayerOwned :: bool
  level :: int
  isUpgrading :: bool
  upgradeProgress :: int
  upgradeTime :: int
  lastClickTime :: int
  active :: bool

text \<open>The constructor (lines 801 to 863); \<open>now\<close> is the value of \<open>Date.now()\<close>.\<close>

definition new_Building :: "int \<Rightarrow> real \<Rightarrow> real \<Rightarrow> ownership \<Rightarrow> building" where
  "new_Building now x y own =
     \<lparr> pos_x = x, pos_y = y, soldiers = 10, lastUpdate = now, isSelected = False,
       ownership = own, isPlayerOwned = (own = Player), level = 1, isUpgrading = False,
       upgradeProgress = 0, upgradeTime = 3000, lastClickTime = 0, active = True \<rparr>"

text \<open>\<open>Building.startUpgrade\<close> (lines 888 to 925).\<close>

definition startUpgrade :: "building \<Rightarrow> building" where
  "startUpgrade b =
     (if isUpgrading b then b
      else
        let upgradeCost = 5 * level b in
        if soldiers b < upgradeCost then b
        else b\<lparr> soldiers := soldiers b - upgradeCost,
                isUpgrading := True,
                upgradeProgress := 0 \<rparr>)"

text \<open>
  \<open>Building.update\<close> (lines 947 to 1015). The first statement advances a running
  upgrade, the second generates a soldier; the second reads \<open>isUpgrading\<close> as the
  first left it.
\<close>

definition advanceUpgrade :: "int \<Rightarrow> building \<Rightarrow> building" where
  "advanceUpgrade elapsedMs b =
     (if isUpgrading b then
        let b1 = b\<lparr> upgradeProgress := upgradeProgress b + elapsedMs \<rparr> in
        if upgradeProgress b1 \<ge> upgradeTime b1
        then b1\<lparr> level := level b1 + 1, isUpgrading := False \<rparr>
        else b1
      else b)"

definition generationTime :: "building \<Rightarrow> real" where
  "generationTime b = 1000 * (0.85 powi (level b - 1))"

definition Building_update :: "int \<Rightarrow> building \<Rightarrow> building" where
  "Building_update now b =
     (let elapsedMs = now - lastUpdate b;
          b1 = advanceUpgrade elapsedMs b
      in if ownership b1 \<noteq> Neutral \<and> \<not> isUpgrading b1 then
           (if real_of_int elapsedMs \<ge> generationTime b1
            then b1\<lparr> soldiers := soldiers b1 + 1, lastUpdate := now \<rparr>
            else b1)
         else b1\<lparr> lastUpdate := now \<rparr>)"

text \<open>\<open>Building.setOwnership\<close> (lines 1017 to 1029) and \<open>setSelected\<close>.\<close>

definition setOwnership :: "ownership \<Rightarrow> building \<Rightarrow> building" where
  "setOwnership newOwnership b =
     b\<lparr> ownership := newOwnership, isPlayerOwned := (newOwnership = Player) \<rparr>"

definition setSelected :: "bool \<Rightarrow> building \<Rightarrow> building" where
  "setSelected selected b = b\<lparr> isSelected := selected \<rparr>"

subsection \<open>Arrival of one soldier at a building\<close>

text \<open>
  The expression \<open>soldier.isPlayerOwned ? 'player' : 'enemy'\<close> of lines 1788 and 1796.
\<close>

definition owner_of :: "bool \<Rightarrow> ownership" where
  "owner_of playerOwned = (if playerOwned then Player else Enemy)"

text \<open>
  The body of \<open>if (targetBuilding) { ... }\<close> in \<open>MainScene.update\<close> (lines 1787 to
  1812), for a soldier whose flag \<open>isPlayerOwned\<close> is the first argument.
\<close>

definition resolveArrival :: "bool \<Rightarrow> building \<Rightarrow> building" where
  "resolveArrival playerOwned b =
     (if ownership b = owner_of playerOwned then b\<lparr> soldiers := soldiers b + 1 \<rparr>
      else
        let b1 = b\<lparr> soldiers := soldiers b - 1 \<rparr> in
        if soldiers b1 < 0
        then (setOwnership (owner_of playerOwned) b1)\<lparr> soldiers := \<bar>soldiers b1\<bar> \<rparr>
        else b1)"

text \<open>The branch of \<open>resolveArrival\<close> that calls \<open>setOwnership\<close>: a capture.\<close>

definition captures :: "bool \<Rightarrow> building \<Rightarrow> bool" where
  "captures playerOwned b \<longleftrightarrow>
     ownership b \<noteq> owner_of playerOwned \<and> soldiers b - 1 < 0"

subsection \<open>Soldiers\<close>

record soldier =
  sol_x :: jsnum
  sol_y :: jsnum
  vx :: jsnum
  vy :: jsnum
  targetX :: real
  targetY :: real
  sol_isPlayerOwned :: bool
  sol_active :: bool
  targetBuilding :: "nat option"

text \<open>
  The \<open>Soldier\<close> constructor (lines 766 to 783). Its arguments are finite numbers; the
  two quotients are not guarded.
\<close>

definition new_Soldier :: "real \<Rightarrow> real \<Rightarrow> real \<Rightarrow> real \<Rightarrow> bool \<Rightarrow> soldier" where
  "new_Soldier x y tX tY playerOwned =
     (let dx = tX - x;
          dy = tY - y;
          distance = sqrt (dx * dx + dy * dy);
          speed = 200
      in \<lparr> sol_x = Fin x, sol_y = Fin y,
           vx = jmul (jdiv dx distance) (Fin speed),
           vy = jmul (jdiv dy distance) (Fin speed),
           targetX = tX, targetY = tY,
           sol_isPlayerOwned = playerOwned, sol_active = True,
           targetBuilding = None \<rparr>)"

text \<open>
  \<open>Soldier.update\<close> (lines 785 to 797): the moved soldier and the flag "reached".
\<close>

definition Soldier_update :: "real \<Rightarrow> soldier \<Rightarrow> soldier \<times> bool" where
  "Soldier_update delta s =
     (let deltaSeconds = delta / 1000;
          x1 = jadd (sol_x s) (jmul (vx s) (Fin deltaSeconds));
          y1 = jadd (sol_y s) (jmul (vy s) (Fin deltaSeconds));
          dx = jsub (Fin (targetX s)) x1;
          dy = jsub (Fin (targetY s)) y1;
          distanceSquared = jadd (jmul dx dx) (jmul dy dy)
      in (s\<lparr> sol_x := x1, sol_y := y1 \<rparr>, jless distanceSquared 100))"

text \<open>
  An entry of \<open>scene.activeSoldiers\<close>: a \<open>Soldier\<close>, or one of the placeholder objects
  that \<open>sendSoldiers\<close> pushes (lines 1916 to 1921), which have no \<open>update\<close> method. A
  placeholder is shared between the array and the closure of the spawn callbacks; the
  number in the model is its identity.
\<close>

datatype troop =
    Real_Soldier soldier
  | Placeholder nat bool bool

fun troop_active :: "troop \<Rightarrow> bool" where
  "troop_active (Real_Soldier s) = sol_active s"
| "troop_active (Placeholder i a p) = a"

subsection \<open>The soldier loop of \<open>MainScene.update\<close>\<close>

text \<open>The predicate given to \<open>this.buildings.find\<close> (lines 1778 to 1785).\<close>

definition inCaptureRadius :: "real \<Rightarrow> real \<Rightarrow> building \<Rightarrow> bool" where
  "inCaptureRadius tX tY b =
     (if \<not> active b then False
      else
        let dx = pos_x b - tX;
            dy = pos_y b - tY;
            distanceSquared = dx * dx + dy * dy
        in distanceSquared < 2500)"

text \<open>\<open>Array.prototype.find\<close>, returning the index of the first match.\<close>

fun findTargetBuilding :: "real \<Rightarrow> real \<Rightarrow> building list \<Rightarrow> nat option" where
  "findTargetBuilding tX tY [] = None"
| "findTargetBuilding tX tY (b # bs) =
     (if inCaptureRadius tX tY b then Some 0
      else map_option Suc (findTargetBuilding tX tY bs))"

text \<open>
  What happens to a soldier that reported "reached" (lines 1776 to 1816): the building
  found, if any, resolves the arrival; the soldier is destroyed in both cases.
\<close>

definition arriveAt :: "soldier \<Rightarrow> building list \<Rightarrow> building list" where
  "arriveAt s bs =
     (case findTargetBuilding (targetX s) (targetY s) bs of
        None \<Rightarrow> bs
      | Some i \<Rightarrow> bs[i := resolveArrival (sol_isPlayerOwned s) (bs ! i)])"

text \<open>
  One iteration of the \<open>for\<close> loop (lines 1760 to 1829) on the pair of the buildings and
  the array \<open>stillActiveSoldiers\<close>. Nothing in the \<open>try\<close> block throws on the objects
  of the model, so the \<open>catch\<close> branch has no counterpart.
\<close>

fun processSoldier :: "real \<Rightarrow> troop \<Rightarrow> building list \<times> troop list \<Rightarrow> building list \<times> troop list" where
  "processSoldier delta (Placeholder i a p) (bs, still) =
     (if \<not> a then (bs, still) else (bs, still @ [Placeholder i a p]))"
| "processSoldier delta (Real_Soldier s) (bs, still) =
     (if \<not> sol_active s then (bs, still)
      else
        case Soldier_update delta s of
          (s1, reachedTarget) \<Rightarrow>
            if reachedTarget then (arriveAt s1 bs, still)
            else (bs, still @ [Real_Soldier s1]))"

fun stepSoldiers :: "real \<Rightarrow> troop list \<Rightarrow> building list \<times> troop list \<Rightarrow> building list \<times> troop list" where
  "stepSoldiers delta [] acc = acc"
| "stepSoldiers delta (t # ts) acc = stepSoldiers delta ts (processSoldier delta t acc)"

subsection \<open>The scene\<close>

datatype difficulty = Easy | Medium | Hard

record ai_controller =
  lastDecisionTime :: real
  decisionInterval :: real
  difficultyLevel :: difficulty
  aggressiveness :: real
  expansionPriority :: real
  minSoldiersToKeep :: real
  targetAnalysisDepth :: nat

text \<open>
  A callback registered with \<open>this.time.delayedCall\<close> in \<open>sendSoldiers\<close> (line
  1934), with the variables its closure captured: the two buildings, the angle, and the
  call of \<open>sendSoldiers\<close> it belongs to (which owns the array \<open>placeholderSoldiers\<close>).
\<close>

record pending_spawn =
  sp_delay :: int
  sp_source :: nat
  sp_target :: nat
  sp_angleToTarget :: real
  sp_dispatch :: nat

text \<open>
  The state of \<open>MainScene\<close>. \<open>reports\<close> lists the calls of \<open>showGameOverModal\<close> made
  so far, latest last, each with its argument \<open>isWin\<close>. \<open>pendingSpawns\<close> is the
  timer queue; \<open>placeholderSoldiers\<close> gives, for each call of \<open>sendSoldiers\<close>, the
  placeholders still in the array of its closure.
\<close>

record scene =
  buildings :: "building list"
  activeSoldiers :: "troop list"
  gameOver :: bool
  selectedBuilding :: "nat option"
  aiController :: ai_controller
  pendingSpawns :: "pending_spawn list"
  placeholderSoldiers :: "nat \<Rightarrow> nat list"
  nextPlaceholder :: nat
  nextDispatch :: nat
  reports :: "bool list"

text \<open>Writing a field of the building at an index, as a method call on the object does.\<close>

definition onBuilding :: "nat \<Rightarrow> (building \<Rightarrow> building) \<Rightarrow> scene \<Rightarrow> scene" where
  "onBuilding i f w = w\<lparr> buildings := (buildings w)[i := f (buildings w ! i)] \<rparr>"

subsection \<open>Terminal detection\<close>

text \<open>\<open>MainScene.checkGameOver\<close> (lines 1713 to 1740).\<close>

definition hasBuildings :: "ownership \<Rightarrow> building list \<Rightarrow> bool" where
  "hasBuildings own bs = list_ex (\<lambda>b. active b \<and> ownership b = own) bs"

definition checkGameOver :: "scene \<Rightarrow> scene" where
  "checkGameOver w =
     (if gameOver w then w
      else
        let playerHasBuildings = hasBuildings Player (buildings w);
            enemyHasBuildings = hasBuildings Enemy (buildings w)
        in if playerHasBuildings \<and> \<not> enemyHasBuildings
           then w\<lparr> gameOver := True, reports := reports w @ [True] \<rparr>
           else if enemyHasBuildings \<and> \<not> playerHasBuildings
           then w\<lparr> gameOver := True, reports := reports w @ [False] \<rparr>
           else w)"

subsection \<open>Dispatch\<close>

text \<open>\<open>Math.atan2\<close> on finite arguments (the sign of a zero is not modelled).\<close>

definition atan2 :: "real \<Rightarrow> real \<Rightarrow> real" where
  "atan2 dy dx =
     (if 0 < dx then arctan (dy / dx)
      else if dx < 0 \<and> 0 \<le> dy then arctan (dy / dx) + pi
      else if dx < 0 then arctan (dy / dx) - pi
      else if 0 < dy then pi / 2
      else if dy < 0 then - (pi / 2)
      else 0)"

text \<open>
  \<open>MainScene.sendSoldiers\<close> (lines 1885 to 1980), up to the registration of the
  callbacks. An index outside the array stands for a missing building. The callbacks
  themselves are \<open>spawnSoldier\<close> below.
\<close>

definition sendSoldiers :: "nat \<Rightarrow> nat \<Rightarrow> int \<Rightarrow> scene \<Rightarrow> scene" where
  "sendSoldiers src tgt cnt w =
     (if \<not> src < length (buildings w) \<or> \<not> tgt < length (buildings w) \<or> cnt \<le> 0 then w
      else
        let sourceBuilding = buildings w ! src;
            targetBuilding' = buildings w ! tgt;
            soldiersToSend = min (soldiers sourceBuilding) cnt
        in if soldiersToSend \<le> 0 then w
           else
             let dx = pos_x targetBuilding' - pos_x sourceBuilding;
                 dy = pos_y targetBuilding' - pos_y sourceBuilding;
                 angleToTarget = atan2 dy dx;
                 n = nat soldiersToSend;
                 ids = [nextPlaceholder w ..< nextPlaceholder w + n];
                 d = nextDispatch w
             in w\<lparr> buildings := (buildings w)
                       [src := sourceBuilding\<lparr> soldiers := soldiers sourceBuilding - soldiersToSend \<rparr>],
                    activeSoldiers := activeSoldiers w @
                       map (\<lambda>i. Placeholder i True (ownership sourceBuilding = Player)) ids,
                    pendingSpawns := pendingSpawns w @
                       map (\<lambda>i. \<lparr> sp_delay = int i * 50, sp_source = src, sp_target = tgt,
                                  sp_angleToTarget = angleToTarget, sp_dispatch = d \<rparr>) [0 ..< n],
                    placeholderSoldiers := (placeholderSoldiers w)(d := ids),
                    nextPlaceholder := nextPlaceholder w + n,
                    nextDispatch := d + 1 \<rparr>)"

text \<open>\<open>placeholder.active = false\<close> on the object with the given identity.\<close>

fun deactivate :: "nat \<Rightarrow> troop \<Rightarrow> troop" where
  "deactivate k (Placeholder i a p) = (if i = k then Placeholder i False p else Placeholder i a p)"
| "deactivate k (Real_Soldier s) = Real_Soldier s"

text \<open>
  The callback of \<open>delayedCall\<close> (lines 1934 to 1978) for the entry at position \<open>k\<close> of
  the timer queue; \<open>r1\<close> to \<open>r4\<close> are the values of its four calls of
  \<open>Math.random()\<close>. The entry leaves the queue as it fires. The buildings are read when
  the callback runs, not when it was registered.
\<close>

definition spawnSoldier :: "nat \<Rightarrow> real \<times> real \<times> real \<times> real \<Rightarrow> scene \<Rightarrow> scene" where
  "spawnSoldier k rnd w =
     (if \<not> k < length (pendingSpawns w) then w
      else
        case rnd of (r1, r2, r3, r4) \<Rightarrow>
        let p = pendingSpawns w ! k;
            sourceBuilding = buildings w ! sp_source p;
            targetBuilding' = buildings w ! sp_target p;
            radius = 45;
            spreadAngle = pi / 2;
            spreadRadius = radius + (r1 * 20 - 10);
            spreadAngleOffset = (r2 - 0.5) * spreadAngle;
            spawnAngle = sp_angleToTarget p + spreadAngleOffset;
            spawnX = pos_x sourceBuilding + cos spawnAngle * spreadRadius;
            spawnY = pos_y sourceBuilding + sin spawnAngle * spreadRadius;
            targetOffsetX = r3 * 40 - 20;
            targetOffsetY = r4 * 40 - 20;
            s = (new_Soldier spawnX spawnY
                    (pos_x targetBuilding' + targetOffsetX)
                    (pos_y targetBuilding' + targetOffsetY)
                    (ownership sourceBuilding = Player))
                  \<lparr> targetBuilding := Some (sp_target p) \<rparr>;
            remaining = placeholderSoldiers w (sp_dispatch p);
            pushed = activeSoldiers w @ [Real_Soldier s]
        in w\<lparr> activeSoldiers :=
                 (if remaining = [] then pushed else map (deactivate (last remaining)) pushed),
               placeholderSoldiers :=
                 (placeholderSoldiers w)(sp_dispatch p := butlast remaining),
               pendingSpawns := take k (pendingSpawns w) @ drop (Suc k) (pendingSpawns w) \<rparr>)"

subsection \<open>The AI controller\<close>

text \<open>The table \<open>difficultySettings\<close> and \<open>applyDifficultySettings\<close> (lines 1047 to 1082).\<close>

definition applyDifficultySettings :: "ai_controller \<Rightarrow> ai_controller" where
  "applyDifficultySettings ai =
     (case difficultyLevel ai of
        Easy \<Rightarrow> ai\<lparr> decisionInterval := 2000, aggressiveness := 0.4,
                     expansionPriority := 0.6, minSoldiersToKeep := 0.5,
                     targetAnalysisDepth := 1 \<rparr>
      | Medium \<Rightarrow> ai\<lparr> decisionInterval := 1000, aggressiveness := 0.7,
                     expansionPriority := 0.8, minSoldiersToKeep := 0.3,
                     targetAnalysisDepth := 2 \<rparr>
      | Hard \<Rightarrow> ai\<lparr> decisionInterval := 500, aggressiveness := 0.9,
                     expansionPriority := 0.9, minSoldiersToKeep := 0.2,
                     targetAnalysisDepth := 3 \<rparr>)"

definition setDifficulty :: "difficulty \<Rightarrow> ai_controller \<Rightarrow> ai_controller" where
  "setDifficulty lvl ai = applyDifficultySettings (ai\<lparr> difficultyLevel := lvl \<rparr>)"

definition new_AIController :: ai_controller where
  "new_AIController =
     applyDifficultySettings
       \<lparr> lastDecisionTime = 0, decisionInterval = 1000, difficultyLevel = Medium,
         aggressiveness = 0.7, expansionPriority = 0.8, minSoldiersToKeep = 0,
         targetAnalysisDepth = 0 \<rparr>"

text \<open>
  \<open>getEnemyBuildings\<close>, \<open>getPlayerBuildings\<close> and \<open>getNeutralBuildings\<close> (lines 1114
  to 1127), as the indices of the buildings they return, in array order.
\<close>

definition buildingsOf :: "ownership \<Rightarrow> building list \<Rightarrow> nat list" where
  "buildingsOf own bs = filter (\<lambda>i. active (bs ! i) \<and> ownership (bs ! i) = own) [0 ..< length bs]"

text \<open>\<open>Phaser.Math.Distance.Between\<close> on the positions of two buildings.\<close>

definition distanceBetween :: "building \<Rightarrow> building \<Rightarrow> real" where
  "distanceBetween a b =
     (let dx = pos_x a - pos_x b; dy = pos_y a - pos_y b in sqrt (dx * dx + dy * dy))"

text \<open>\<open>calculateThreatLevel\<close> (lines 1212 to 1234).\<close>

definition threatOf :: "building \<Rightarrow> building \<Rightarrow> real" where
  "threatOf b playerBuilding =
     (let distance = distanceBetween b playerBuilding in
      if distance < 300 then
        let distanceFactor = 1 - distance / 300;
            strengthFactor = real_of_int (soldiers playerBuilding) / 30
        in distanceFactor * strengthFactor
      else 0)"

definition calculateThreatLevel :: "building \<Rightarrow> building list \<Rightarrow> real" where
  "calculateThreatLevel b playerBuildings =
     min 1 (foldl (\<lambda>threatLevel pb. threatLevel + threatOf b pb) 0 playerBuildings)"

text \<open>
  \<open>evaluateExpansionTargets\<close> and \<open>evaluateAttackTargets\<close> (lines 1236 to 1295). The
  two quotients of a score have the divisor \<open>soldiers + 1\<close>, which is at least 1 while no
  troop count is negative. \<open>Array.prototype.sort\<close> is stable, and so is \<open>sort_key\<close>.
\<close>

record target =
  tg_building :: nat
  tg_score :: real
  tg_distance :: real

definition expansionTarget :: "building list \<Rightarrow> building \<Rightarrow> nat \<Rightarrow> target option" where
  "expansionTarget bs b j =
     (let neutralBuilding = bs ! j;
          distance = distanceBetween b neutralBuilding;
          distanceScore = 1000 / (distance + 1);
          soldierScore = 20 / (real_of_int (soldiers neutralBuilding) + 1);
          canCapture = (real_of_int (soldiers b) > real_of_int (soldiers neutralBuilding) * 1.2)
      in if canCapture
         then Some \<lparr> tg_building = j, tg_score = distanceScore * soldierScore,
                     tg_distance = distance \<rparr>
         else None)"

definition attackTargetOf :: "building list \<Rightarrow> building \<Rightarrow> nat \<Rightarrow> target option" where
  "attackTargetOf bs b j =
     (let playerBuilding = bs ! j;
          distance = distanceBetween b playerBuilding;
          distanceScore = 1000 / (distance + 1);
          soldierScore = 30 / (real_of_int (soldiers playerBuilding) + 1);
          levelScore = real_of_int (level playerBuilding * 2);
          canAttack = (real_of_int (soldiers b) > real_of_int (soldiers playerBuilding) * 1.5)
      in if canAttack
         then Some \<lparr> tg_building = j, tg_score = distanceScore * soldierScore * levelScore,
                     tg_distance = distance \<rparr>
         else None)"

definition sortByScore :: "target list \<Rightarrow> target list" where
  "sortByScore ts = sort_key (\<lambda>t. - tg_score t) ts"

definition evaluateExpansionTargets :: "building list \<Rightarrow> building \<Rightarrow> nat list \<Rightarrow> target list" where
  "evaluateExpansionTargets bs b neutralBuildings =
     sortByScore (List.map_filter (expansionTarget bs b) neutralBuildings)"

definition evaluateAttackTargets :: "building list \<Rightarrow> building \<Rightarrow> nat list \<Rightarrow> target list" where
  "evaluateAttackTargets bs b playerBuildings =
     sortByScore (List.map_filter (attackTargetOf bs b) playerBuildings)"

text \<open>
  \<open>evaluateStrategicOptions\<close> (lines 1158 to 1210). \<open>r1\<close>, \<open>r2\<close> and \<open>r3\<close> are what
  its three calls of \<open>Math.random()\<close> return when they are reached.
\<close>

datatype decision = Attack nat int | Expand nat int | Upgrade | Hold

definition maxSoldiersToSend :: "ai_controller \<Rightarrow> building list \<Rightarrow> building \<Rightarrow> int" where
  "maxSoldiersToSend ai bs b =
     (let threatLevel = calculateThreatLevel b (map ((!) bs) (buildingsOf Player bs))
      in max 1 \<lfloor>real_of_int (soldiers b) * (1 - minSoldiersToKeep ai * threatLevel)\<rfloor>)"

definition soldierCountFor :: "int \<Rightarrow> building \<Rightarrow> int" where
  "soldierCountFor cap targetB = min cap \<lceil>real_of_int (soldiers targetB) * 1.5\<rceil>"

definition evaluateStrategicOptions ::
    "ai_controller \<Rightarrow> building list \<Rightarrow> building \<Rightarrow> real \<times> real \<times> real \<Rightarrow> decision" where
  "evaluateStrategicOptions ai bs b rnd =
     (case rnd of (r1, r2, r3) \<Rightarrow>
      let expansionTargets = evaluateExpansionTargets bs b (buildingsOf Neutral bs);
          attackTargets = evaluateAttackTargets bs b (buildingsOf Player bs);
          cap = maxSoldiersToSend ai bs b
      in if cap \<le> 1 then Hold
         else if level b < 3 \<and> soldiers b > 15 \<and> r1 < 0.1 then Upgrade
         else if expansionTargets \<noteq> [] \<and> r2 < expansionPriority ai
         then Expand (tg_building (hd expansionTargets))
                     (soldierCountFor cap (bs ! tg_building (hd expansionTargets)))
         else if attackTargets \<noteq> [] \<and> r3 < aggressiveness ai
         then Attack (tg_building (hd attackTargets))
                     (soldierCountFor cap (bs ! tg_building (hd attackTargets)))
         else Hold)"

text \<open>\<open>attackTarget\<close> and \<open>expandToNeutral\<close> (lines 1297 to 1308).\<close>

definition attackTarget :: "nat \<Rightarrow> nat \<Rightarrow> int \<Rightarrow> scene \<Rightarrow> scene" where
  "attackTarget src tgt soldierCount w =
     (if src < length (buildings w) \<and> tgt < length (buildings w) \<and> soldierCount > 0
      then sendSoldiers src tgt soldierCount w else w)"

definition expandToNeutral :: "nat \<Rightarrow> nat \<Rightarrow> int \<Rightarrow> scene \<Rightarrow> scene" where
  "expandToNeutral src tgt soldierCount w = attackTarget src tgt soldierCount w"

text \<open>\<open>decideForBuilding\<close> (lines 1129 to 1156) for the building at index \<open>i\<close>.\<close>

definition decideForBuilding :: "(nat \<Rightarrow> real \<times> real \<times> real) \<Rightarrow> nat \<Rightarrow> scene \<Rightarrow> scene" where
  "decideForBuilding rnd i w =
     (let b = buildings w ! i in
      if isUpgrading b then w
      else if soldiers b \<le> 1 then w
      else
        case evaluateStrategicOptions (aiController w) (buildings w) b (rnd i) of
          Attack t n \<Rightarrow> attackTarget i t n w
        | Expand t n \<Rightarrow> expandToNeutral i t n w
        | Upgrade \<Rightarrow>
            if \<not> isUpgrading b \<and> level b < 3 then onBuilding i startUpgrade w else w
        | Hold \<Rightarrow> w)"

text \<open>
  \<open>makeDecisions\<close> and \<open>AIController.update\<close> (lines 1091 to 1112). \<open>forEach\<close> walks
  the array that \<open>getEnemyBuildings\<close> returned before the first decision; no decision
  changes an owner, so the indices stay those of the enemy buildings.
\<close>

definition makeDecisions :: "(nat \<Rightarrow> real \<times> real \<times> real) \<Rightarrow> scene \<Rightarrow> scene" where
  "makeDecisions rnd w =
     (let enemyBuildings = buildingsOf Enemy (buildings w) in
      if enemyBuildings = [] then w
      else fold (decideForBuilding rnd) enemyBuildings w)"

definition AI_update :: "real \<Rightarrow> (nat \<Rightarrow> real \<times> real \<times> real) \<Rightarrow> scene \<Rightarrow> scene" where
  "AI_update time rnd w =
     (if time - lastDecisionTime (aiController w) < decisionInterval (aiController w) then w
      else makeDecisions rnd
             (w\<lparr> aiController := (aiController w)\<lparr> lastDecisionTime := time \<rparr> \<rparr>))"

subsection \<open>The tick\<close>

text \<open>
  \<open>MainScene.update\<close> (lines 1742 to 1847). Each building reads \<open>Date.now()\<close> itself:
  \<open>clock i\<close> is the value the building at index \<open>i\<close> reads in this tick.
\<close>

definition updateBuildings :: "(nat \<Rightarrow> int) \<Rightarrow> building list \<Rightarrow> building list" where
  "updateBuildings clock bs = map (\<lambda>i. Building_update (clock i) (bs ! i)) [0 ..< length bs]"

definition MainScene_update ::
    "real \<Rightarrow> real \<Rightarrow> (nat \<Rightarrow> int) \<Rightarrow> (nat \<Rightarrow> real \<times> real \<times> real) \<Rightarrow> scene \<Rightarrow> scene" where
  "MainScene_update time delta clock rnd w =
     (if gameOver w then w
      else
        case stepSoldiers delta (activeSoldiers w) (updateBuildings clock (buildings w), []) of
          (bs, stillActiveSoldiers) \<Rightarrow>
            AI_update time rnd
              (checkGameOver (w\<lparr> buildings := bs, activeSoldiers := stillActiveSoldiers \<rparr>)))"

subsection \<open>Player input\<close>

text \<open>\<open>selectBuilding\<close> (lines 1849 to 1866) and \<open>handleRightClick\<close> (lines 1868 to 1882).\<close>

definition selectBuilding :: "nat \<Rightarrow> scene \<Rightarrow> scene" where
  "selectBuilding i w =
     (if \<not> isPlayerOwned (buildings w ! i) then w
      else
        let w1 = (case selectedBuilding w of
                    None \<Rightarrow> w
                  | Some j \<Rightarrow> onBuilding j (setSelected False) w)
        in if selectedBuilding w = Some i then w1\<lparr> selectedBuilding := None \<rparr>
           else onBuilding i (setSelected True) (w1\<lparr> selectedBuilding := Some i \<rparr>))"

definition handleRightClick :: "nat \<Rightarrow> scene \<Rightarrow> scene" where
  "handleRightClick tgt w =
     (case selectedBuilding w of
        None \<Rightarrow> w
      | Some src \<Rightarrow>
          if src = tgt then w
          else if soldiers (buildings w ! src) \<le> 0 then w
          else (onBuilding src (setSelected False)
                  (sendSoldiers src tgt (soldiers (buildings w ! src)) w))
               \<lparr> selectedBuilding := None \<rparr>)"

text \<open>
  The \<open>pointerdown\<close> listener of a building (lines 870 to 884); \<open>currentTime\<close> is what
  \<open>Date.now()\<close> returns. A double click calls \<open>startUpgrade\<close> directly.
\<close>

definition pointerdown :: "nat \<Rightarrow> bool \<Rightarrow> int \<Rightarrow> scene \<Rightarrow> scene" where
  "pointerdown i rightButtonDown currentTime w =
     (if \<not> i < length (buildings w) then w
      else if rightButtonDown then handleRightClick i w
      else if isPlayerOwned (buildings w ! i) then
        onBuilding i (\<lambda>b. b\<lparr> lastClickTime := currentTime \<rparr>)
          (if currentTime - lastClickTime (buildings w ! i) < 300
           then onBuilding i startUpgrade w
           else selectBuilding i w)
      else w)"

subsection \<open>A match\<close>

text \<open>
  \<open>init\<close> and \<open>create\<close> (lines 1316 to 1365 and 1447 to 1507): four player buildings,
  four enemy buildings and six neutral ones, at the positions \<open>pos i\<close> that
  \<open>getValidBuildingPosition\<close> drew, and an AI controller set to medium.
\<close>

definition create :: "(nat \<Rightarrow> int) \<Rightarrow> (nat \<Rightarrow> real \<times> real) \<Rightarrow> scene" where
  "create clock pos =
     \<lparr> buildings =
         map (\<lambda>i. new_Building (clock i) (fst (pos i)) (snd (pos i))
                    (if i < 4 then Player else if i < 8 then Enemy else Neutral))
             [0 ..< 14],
       activeSoldiers = [],
       gameOver = False,
       selectedBuilding = None,
       aiController = setDifficulty Medium new_AIController,
       pendingSpawns = [],
       placeholderSoldiers = (\<lambda>d. []),
       nextPlaceholder = 0,
       nextDispatch = 0,
       reports = [] \<rparr>"

text \<open>
  What can happen to a scene between \<open>create\<close> and the next restart: a tick, a pointer
  event on a building, or a timer firing one of the pending spawn callbacks.
\<close>

datatype event =
    Tick real real "nat \<Rightarrow> int" "nat \<Rightarrow> real \<times> real \<times> real"
  | PointerDown nat bool int
  | SpawnTimer nat "real \<times> real \<times> real \<times> real"

fun step :: "event \<Rightarrow> scene \<Rightarrow> scene" where
  "step (Tick time delta clock rnd) w = MainScene_update time delta clock rnd w"
| "step (PointerDown i rightButtonDown currentTime) w = pointerdown i rightButtonDown currentTime w"
| "step (SpawnTimer k rnd) w = spawnSoldier k rnd w"

definition run :: "event list \<Rightarrow> scene \<Rightarrow> scene" where
  "run es w = fold step es w"

text \<open>No building holds a negative troop count.\<close>

definition nonneg :: "building list \<Rightarrow> bool" where
  "nonneg bs = list_all (\<lambda>b. 0 \<le> soldiers b) bs"

text \<open>
  What \<open>findTargetBuilding\<close> reads of a building: its position and whether it is active.
\<close>

definition footprint :: "building \<Rightarrow> real \<times> real \<times> bool" where
  "footprint b = (pos_x b, pos_y b, active b)"

text \<open>The entries of \<open>activeSoldiers\<close> that are \<open>Soldier\<close> objects, and their number.\<close>

fun isSoldier :: "troop \<Rightarrow> bool" where
  "isSoldier (Real_Soldier s) = True"
| "isSoldier (Placeholder i a p) = False"

definition soldierCount :: "scene \<Rightarrow> nat" where
  "soldierCount w = length (filter isSoldier (activeSoldiers w))"

text \<open>\<open>showGameOverModal\<close> was called once if the scene is terminal, and never otherwise.\<close>

definition verdict_once :: "scene \<Rightarrow> bool" where
  "verdict_once w \<longleftrightarrow> length (reports w) = (if gameOver w then 1 else 0)"

text \<open>
  Two states of \<open>scene.buildings\<close> that differ at most in the building at index \<open>j\<close>,
  which has kept its owner and is active in both or in neither.
\<close>

definition only_changed :: "nat \<Rightarrow> building list \<Rightarrow> building list \<Rightarrow> bool" where
  "only_changed j bs bs' \<longleftrightarrow>
     length bs' = length bs
     \<and> (\<forall>k < length bs. k \<noteq> j \<longrightarrow> bs' ! k = bs ! k)
     \<and> (j < length bs \<longrightarrow> ownership (bs' ! j) = ownership (bs ! j)
                          \<and> active (bs' ! j) = active (bs ! j))"

section \<open>Properties\<close>

subsection \<open>Finding the building a soldier arrived at\<close>

lemma findTargetBuilding_Some_lt:
  "findTargetBuilding tX tY bs = Some i \<Longrightarrow> i < length bs"
  by (induction bs arbitrary: i) (auto split: if_splits)

lemma findTargetBuilding_None_iff:
  "findTargetBuilding tX tY bs = None \<longleftrightarrow> (\<forall>b \<in> set bs. \<not> inCaptureRadius tX tY b)"
  by (induction bs) auto

lemma inCaptureRadius_footprint:
  "footprint b = footprint b' \<Longrightarrow> inCaptureRadius tX tY b = inCaptureRadius tX tY b'"
  by (simp add: footprint_def inCaptureRadius_def)

lemma findTargetBuilding_footprint:
  "map footprint bs = map footprint bs' \<Longrightarrow>
   findTargetBuilding tX tY bs = findTargetBuilding tX tY bs'"
proof (induction bs arbitrary: bs')
  case Nil
  then show ?case by simp
next
  case (Cons b bs)
  then obtain c cs where bs': "bs' = c # cs" by (cases bs') auto
  with Cons.prems have "footprint b = footprint c" and "map footprint bs = map footprint cs"
    by simp_all
  then show ?case
    using Cons.IH[of cs] bs' by (simp add: inCaptureRadius_footprint[of b c])
qed

lemma footprint_resolveArrival [simp]: "footprint (resolveArrival p b) = footprint b"
  by (simp add: footprint_def resolveArrival_def setOwnership_def Let_def)

lemma inCaptureRadius_resolveArrival [simp]:
  "inCaptureRadius tX tY (resolveArrival p b) = inCaptureRadius tX tY b"
  by (rule inCaptureRadius_footprint) simp

lemma findTargetBuilding_update:
  "i < length bs \<Longrightarrow> inCaptureRadius tX tY b' = inCaptureRadius tX tY (bs ! i) \<Longrightarrow>
   findTargetBuilding tX tY (bs[i := b']) = findTargetBuilding tX tY bs"
proof (induction bs arbitrary: i)
  case Nil
  then show ?case by simp
next
  case (Cons b bs)
  then show ?case by (cases i) auto
qed

lemma footprint_arriveAt [simp]: "map footprint (arriveAt s bs) = map footprint bs"
  by (auto simp: arriveAt_def map_update list_update_same_conv
           dest: findTargetBuilding_Some_lt split: option.splits)

lemma footprint_processSoldier:
  "map footprint (fst (processSoldier delta t (bs, still))) = map footprint bs"
  by (cases t) (auto split: prod.splits)

lemma footprint_stepSoldiers:
  "map footprint (fst (stepSoldiers delta ts acc)) = map footprint (fst acc)"
proof (induction ts arbitrary: acc)
  case Nil
  then show ?case by simp
next
  case (Cons t ts)
  obtain bs still where acc: "acc = (bs, still)" by (cases acc)
  show ?case using Cons.IH[of "processSoldier delta t acc"]
    by (simp add: acc footprint_processSoldier)
qed

lemma stepSoldiers_append:
  "stepSoldiers delta (xs @ ys) acc = stepSoldiers delta ys (stepSoldiers delta xs acc)"
  by (induction xs arbitrary: acc) simp_all

subsection \<open>A stream of hostile arrivals\<close>

text \<open>
  \<open>k\<close> hostile arrivals at a building with a garrison \<open>g \<ge> 0\<close>: the first \<open>g\<close> wear
  the garrison down to zero, arrival \<open>g + 1\<close> captures, the later ones reinforce.
\<close>

lemma resolveArrival_hostile_pow:
  "ownership b \<noteq> owner_of p \<Longrightarrow> 0 \<le> soldiers b \<Longrightarrow>
   (resolveArrival p ^^ k) b =
     (if int k \<le> soldiers b then b\<lparr> soldiers := soldiers b - int k \<rparr>
      else (setOwnership (owner_of p) b)\<lparr> soldiers := int k - soldiers b \<rparr>)"
proof (induction k)
  case 0
  then show ?case by simp
next
  case (Suc k)
  then show ?case
    by (auto simp: resolveArrival_def setOwnership_def Let_def)
qed

lemma fold_arriveAt:
  "i < length bs \<Longrightarrow>
   \<forall>s \<in> set ss. findTargetBuilding (targetX s) (targetY s) bs = Some i \<and> sol_isPlayerOwned s = p \<Longrightarrow>
   fold arriveAt ss bs = bs[i := (resolveArrival p ^^ length ss) (bs ! i)]"
proof (induction ss arbitrary: bs)
  case Nil
  then show ?case by simp
next
  case (Cons s ss)
  let ?bs1 = "bs[i := resolveArrival p (bs ! i)]"
  have step: "arriveAt s bs = ?bs1"
    using Cons.prems by (simp add: arriveAt_def)
  have "\<forall>s \<in> set ss. findTargetBuilding (targetX s) (targetY s) ?bs1 = Some i \<and> sol_isPlayerOwned s = p"
    using Cons.prems by (simp add: findTargetBuilding_update)
  moreover have "i < length ?bs1" using Cons.prems by simp
  ultimately have "fold arriveAt ss ?bs1 = ?bs1[i := (resolveArrival p ^^ length ss) (?bs1 ! i)]"
    by (rule Cons.IH[rotated])
  then show ?case
    using Cons.prems(1) step by (simp add: funpow_swap1)
qed

text \<open>
  Claim C1. The soldiers of the list \<open>ss\<close> all belong to the same attacker \<open>p\<close> and
  all arrive, one after the other, at the building at index \<open>i\<close>, which another faction
  owns and which holds \<open>g = soldiers (bs ! i) \<ge> 0\<close> troops. If there are more than \<open>g\<close>
  of them, the building ends up owned by the attacker with \<open>length ss - g\<close> troops. After
  the first \<open>k\<close> arrivals the owner is still the old one when \<open>k \<le> g\<close> and the attacker
  from \<open>k = g + 1\<close> on, and the troop count is \<open>|k - g|\<close>.
\<close>

theorem capture_after_hostile_stream:
  assumes arrivals: "\<forall>s \<in> set ss. findTargetBuilding (targetX s) (targetY s) bs = Some i
                        \<and> sol_isPlayerOwned s = p"
      and hostile: "ownership (bs ! i) \<noteq> owner_of p"
      and garrison: "0 \<le> soldiers (bs ! i)"
      and more: "soldiers (bs ! i) < int (length ss)"
  shows "ownership (fold arriveAt ss bs ! i) = owner_of p
       \<and> soldiers (fold arriveAt ss bs ! i) = int (length ss) - soldiers (bs ! i)
       \<and> (\<forall>k \<le> length ss.
            ownership (fold arriveAt (take k ss) bs ! i) =
              (if int k \<le> soldiers (bs ! i) then ownership (bs ! i) else owner_of p)
          \<and> soldiers (fold arriveAt (take k ss) bs ! i) = \<bar>int k - soldiers (bs ! i)\<bar>)"
proof -
  from garrison more obtain s where "s \<in> set ss" by (cases ss) auto
  with arrivals have i: "i < length bs" by (auto dest: findTargetBuilding_Some_lt)
  have at: "fold arriveAt (take k ss) bs ! i = (resolveArrival p ^^ length (take k ss)) (bs ! i)" for k
  proof -
    have "\<forall>s \<in> set (take k ss). findTargetBuilding (targetX s) (targetY s) bs = Some i
            \<and> sol_isPlayerOwned s = p"
      using arrivals by (auto dest: in_set_takeD)
    from fold_arriveAt[OF i this] show ?thesis using i by simp
  qed
  have full: "fold arriveAt ss bs ! i = (resolveArrival p ^^ length ss) (bs ! i)"
    using at[of "length ss"] by simp
  show ?thesis
    using hostile garrison more
    by (auto simp: full at resolveArrival_hostile_pow setOwnership_def min_def)
qed

text \<open>
  The scenario of the specification: a neutral building with 5 troops receives 8 units of
  the player and ends up the player's, with 3 troops.
\<close>

theorem capture_after_hostile_stream_witness:
  "ownership (fold arriveAt
       (replicate 8 \<lparr> sol_x = Fin 5, sol_y = Fin 0, vx = Fin (- 200), vy = Fin 0,
                      targetX = 0, targetY = 0, sol_isPlayerOwned = True,
                      sol_active = True, targetBuilding = Some 0 \<rparr>)
       [(new_Building 0 0 0 Neutral)\<lparr> soldiers := 5 \<rparr>] ! 0) = Player
   \<and> soldiers (fold arriveAt
       (replicate 8 \<lparr> sol_x = Fin 5, sol_y = Fin 0, vx = Fin (- 200), vy = Fin 0,
                      targetX = 0, targetY = 0, sol_isPlayerOwned = True,
                      sol_active = True, targetBuilding = Some 0 \<rparr>)
       [(new_Building 0 0 0 Neutral)\<lparr> soldiers := 5 \<rparr>] ! 0) = 3"
  using capture_after_hostile_stream
     [of "replicate 8 \<lparr> sol_x = Fin 5, sol_y = Fin 0, vx = Fin (- 200), vy = Fin 0,
                      targetX = 0, targetY = 0, sol_isPlayerOwned = True,
                      sol_active = True, targetBuilding = Some 0 \<rparr>"
         "[(new_Building 0 0 0 Neutral)\<lparr> soldiers := 5 \<rparr>]" 0 True]
  by (simp add: new_Building_def inCaptureRadius_def owner_of_def Let_def)

subsection \<open>Arrival at empty ground\<close>

lemma processSoldier_discard:
  assumes "sol_active s" and "Soldier_update delta s = (s1, True)"
      and "findTargetBuilding (targetX s1) (targetY s1) bs = None"
  shows "processSoldier delta (Real_Soldier s) (bs, still) = (bs, still)"
  using assms by (simp add: arriveAt_def)

text \<open>
  Claim C9. A live soldier reports "reached" and no building is within the capture
  radius of its target point. Then its iteration of the loop changes neither the
  buildings nor \<open>stillActiveSoldiers\<close> (the soldier is not kept), and the whole loop,
  wherever the soldier stands in \<open>activeSoldiers\<close>, ends as it would have without it.
\<close>

theorem arrival_without_building_discards:
  assumes live: "sol_active s"
      and reached: "Soldier_update delta s = (s1, True)"
      and nobody: "\<forall>b \<in> set bs. \<not> inCaptureRadius (targetX s1) (targetY s1) b"
  shows "processSoldier delta (Real_Soldier s) (bs, still) = (bs, still)
       \<and> stepSoldiers delta (before @ Real_Soldier s # after) (bs, still)
           = stepSoldiers delta (before @ after) (bs, still)"
proof -
  have none: "findTargetBuilding (targetX s1) (targetY s1) bs = None"
    using nobody by (simp add: findTargetBuilding_None_iff)
  obtain bs' still' where mid: "stepSoldiers delta before (bs, still) = (bs', still')"
    by (cases "stepSoldiers delta before (bs, still)")
  have "map footprint bs' = map footprint bs"
    using footprint_stepSoldiers[of delta before "(bs, still)"] mid by simp
  then have "findTargetBuilding (targetX s1) (targetY s1) bs' = None"
    using none findTargetBuilding_footprint by metis
  then have "processSoldier delta (Real_Soldier s) (bs', still') = (bs', still')"
    using live reached by (rule processSoldier_discard[rotated 2])
  then show ?thesis
    using processSoldier_discard[OF live reached none]
    by (simp add: stepSoldiers_append mid)
qed

theorem arrival_without_building_discards_witness:
  "stepSoldiers 16
     [Real_Soldier \<lparr> sol_x = Fin 5, sol_y = Fin 0, vx = Fin (- 200), vy = Fin 0,
                      targetX = 0, targetY = 0, sol_isPlayerOwned = True,
                      sol_active = True, targetBuilding = Some 0 \<rparr>]
     ([new_Building 0 1000 1000 Neutral], [])
   = ([new_Building 0 1000 1000 Neutral], [])"
  using arrival_without_building_discards
     [of "\<lparr> sol_x = Fin 5, sol_y = Fin 0, vx = Fin (- 200), vy = Fin 0,
                      targetX = 0, targetY = 0, sol_isPlayerOwned = True,
                      sol_active = True, targetBuilding = Some 0 \<rparr>"
         16
         "\<lparr> sol_x = Fin (9 / 5), sol_y = Fin 0, vx = Fin (- 200), vy = Fin 0,
                      targetX = 0, targetY = 0, sol_isPlayerOwned = True,
                      sol_active = True, targetBuilding = Some 0 \<rparr>"
         "[new_Building 0 1000 1000 Neutral]" "[]" "[]" "[]"]
  by (simp add: Soldier_update_def jsub_def new_Building_def inCaptureRadius_def Let_def)

subsection \<open>Troop counts are never negative\<close>

lemma nonneg_nth: "nonneg bs \<Longrightarrow> i < length bs \<Longrightarrow> 0 \<le> soldiers (bs ! i)"
  by (simp add: nonneg_def list_all_length)

lemma nonneg_list_update:
  assumes "nonneg bs" and "i < length bs \<Longrightarrow> 0 \<le> soldiers b'"
  shows "nonneg (bs[i := b'])"
proof (cases "i < length bs")
  case True
  have "set (bs[i := b']) \<subseteq> insert b' (set bs)" by (rule set_update_subset_insert)
  with assms True show ?thesis by (auto simp: nonneg_def list_all_iff)
next
  case False
  then have "length bs \<le> i" by simp
  then have "bs[i := b'] = bs" by (rule list_update_beyond)
  with assms show ?thesis by simp
qed

lemma startUpgrade_nonneg: "0 \<le> soldiers b \<Longrightarrow> 0 \<le> soldiers (startUpgrade b)"
  by (simp add: startUpgrade_def Let_def)

lemma Building_update_nonneg: "0 \<le> soldiers b \<Longrightarrow> 0 \<le> soldiers (Building_update now b)"
  by (simp add: Building_update_def advanceUpgrade_def Let_def)

lemma resolveArrival_nonneg: "0 \<le> soldiers b \<Longrightarrow> 0 \<le> soldiers (resolveArrival p b)"
  by (simp add: resolveArrival_def setOwnership_def Let_def)

lemma arriveAt_nonneg: "nonneg bs \<Longrightarrow> nonneg (arriveAt s bs)"
  by (auto simp: arriveAt_def split: option.splits
           intro!: nonneg_list_update resolveArrival_nonneg nonneg_nth)

lemma processSoldier_nonneg:
  "nonneg bs \<Longrightarrow> nonneg (fst (processSoldier delta t (bs, still)))"
  by (cases t) (auto split: prod.splits intro: arriveAt_nonneg)

lemma stepSoldiers_nonneg:
  "nonneg (fst acc) \<Longrightarrow> nonneg (fst (stepSoldiers delta ts acc))"
proof (induction ts arbitrary: acc)
  case Nil
  then show ?case by simp
next
  case (Cons t ts)
  obtain bs still where acc: "acc = (bs, still)" by (cases acc)
  with Cons.prems have "nonneg (fst (processSoldier delta t acc))"
    by (simp add: processSoldier_nonneg)
  then show ?case using Cons.IH by simp
qed

lemma updateBuildings_nonneg: "nonneg bs \<Longrightarrow> nonneg (updateBuildings clock bs)"
  by (auto simp: updateBuildings_def nonneg_def list_all_iff intro!: Building_update_nonneg)

lemma onBuilding_nonneg:
  assumes "nonneg (buildings w)" and "\<And>b. 0 \<le> soldiers b \<Longrightarrow> 0 \<le> soldiers (f b)"
  shows "nonneg (buildings (onBuilding i f w))"
  using assms by (auto simp: onBuilding_def intro!: nonneg_list_update nonneg_nth)

lemma sendSoldiers_nonneg:
  "nonneg (buildings w) \<Longrightarrow> nonneg (buildings (sendSoldiers src tgt n w))"
  by (auto simp: sendSoldiers_def Let_def intro!: nonneg_list_update)

lemma attackTarget_nonneg:
  "nonneg (buildings w) \<Longrightarrow> nonneg (buildings (attackTarget src tgt n w))"
  by (simp add: attackTarget_def sendSoldiers_nonneg)

lemma decideForBuilding_nonneg:
  "nonneg (buildings w) \<Longrightarrow> nonneg (buildings (decideForBuilding rnd i w))"
  by (auto simp: decideForBuilding_def Let_def expandToNeutral_def
           split: decision.splits
           intro!: attackTarget_nonneg onBuilding_nonneg startUpgrade_nonneg)

lemma fold_decide_nonneg:
  "nonneg (buildings w) \<Longrightarrow> nonneg (buildings (fold (decideForBuilding rnd) is w))"
  by (induction "is" arbitrary: w) (simp_all add: decideForBuilding_nonneg)

lemma AI_update_nonneg:
  "nonneg (buildings w) \<Longrightarrow> nonneg (buildings (AI_update time rnd w))"
  by (simp add: AI_update_def makeDecisions_def Let_def fold_decide_nonneg)

lemma checkGameOver_buildings [simp]: "buildings (checkGameOver w) = buildings w"
  by (simp add: checkGameOver_def Let_def)

lemma MainScene_update_nonneg:
  assumes "nonneg (buildings w)"
  shows "nonneg (buildings (MainScene_update time delta clock rnd w))"
proof (cases "gameOver w")
  case True
  with assms show ?thesis by (simp add: MainScene_update_def)
next
  case False
  obtain bs still where st:
    "stepSoldiers delta (activeSoldiers w) (updateBuildings clock (buildings w), []) = (bs, still)"
    by (cases "stepSoldiers delta (activeSoldiers w) (updateBuildings clock (buildings w), [])")
  have "nonneg bs"
    using stepSoldiers_nonneg[of "(updateBuildings clock (buildings w), [])" delta "activeSoldiers w"]
      assms st by (simp add: updateBuildings_nonneg)
  then show ?thesis
    using False st by (simp add: MainScene_update_def AI_update_nonneg)
qed

lemma setSelected_soldiers [simp]: "soldiers (setSelected x b) = soldiers b"
  by (simp add: setSelected_def)

lemma selectBuilding_nonneg:
  "nonneg (buildings w) \<Longrightarrow> nonneg (buildings (selectBuilding i w))"
  by (auto simp: selectBuilding_def Let_def onBuilding_def split: option.splits
           intro!: nonneg_list_update nonneg_nth)

lemma handleRightClick_nonneg:
  "nonneg (buildings w) \<Longrightarrow> nonneg (buildings (handleRightClick tgt w))"
  by (auto simp: handleRightClick_def split: option.splits
           intro!: onBuilding_nonneg sendSoldiers_nonneg)

lemma pointerdown_nonneg:
  "nonneg (buildings w) \<Longrightarrow> nonneg (buildings (pointerdown i r t w))"
  by (auto simp: pointerdown_def
           intro!: onBuilding_nonneg handleRightClick_nonneg selectBuilding_nonneg
                   startUpgrade_nonneg)

lemma spawnSoldier_buildings [simp]: "buildings (spawnSoldier k rnd w) = buildings w"
  by (simp add: spawnSoldier_def Let_def split: prod.splits)

lemma step_nonneg: "nonneg (buildings w) \<Longrightarrow> nonneg (buildings (step e w))"
  by (cases e) (simp_all add: MainScene_update_nonneg pointerdown_nonneg)

lemma run_nonneg: "nonneg (buildings w) \<Longrightarrow> nonneg (buildings (run es w))"
  unfolding run_def by (induction es arbitrary: w) (simp_all add: step_nonneg)

lemma create_nonneg: "nonneg (buildings (create clock pos))"
  by (simp add: create_def nonneg_def list_all_iff new_Building_def)

text \<open>
  Claim C2. Start from any scene that \<open>create\<close> builds and let any events happen: ticks
  (generation, upgrades, arrivals, the AI and its dispatches), pointer events (selection,
  dispatch, upgrade) and spawn timers, in any order. After each of them every building
  holds a troop count of at least 0. Inside the resolution of an arrival, a count that the
  decrement made negative is replaced at once by its absolute value, and the building
  changes owner.
\<close>

theorem troop_counts_never_negative:
  "(\<forall>k \<le> length es. \<forall>b \<in> set (buildings (run (take k es) (create clock pos))). 0 \<le> soldiers b)
   \<and> (ownership b \<noteq> owner_of p \<and> soldiers b - 1 < 0 \<longrightarrow>
        soldiers (resolveArrival p b) = \<bar>soldiers b - 1\<bar>
        \<and> ownership (resolveArrival p b) = owner_of p)"
proof -
  have "nonneg (buildings (run (take k es) (create clock pos)))" for k
    by (rule run_nonneg[OF create_nonneg])
  then show ?thesis
    by (auto simp: nonneg_def list_all_iff resolveArrival_def setOwnership_def Let_def)
qed

theorem troop_counts_never_negative_witness:
  "soldiers (buildings (run [PointerDown 0 False 1000, PointerDown 8 True 1100]
                 (create (\<lambda>i. 0) (\<lambda>i. (real i * 100, 0))))  ! 0) = 0
   \<and> soldiers (resolveArrival True ((new_Building 0 0 0 Neutral)\<lparr> soldiers := 0 \<rparr>)) = 1
   \<and> ownership (resolveArrival True ((new_Building 0 0 0 Neutral)\<lparr> soldiers := 0 \<rparr>)) = Player"
  using troop_counts_never_negative
     [of "[PointerDown 0 False 1000, PointerDown 8 True 1100]" "\<lambda>i. 0" "\<lambda>i. (real i * 100, 0)"
         "(new_Building 0 0 0 Neutral)\<lparr> soldiers := 0 \<rparr>" True]
  by (simp add: run_def create_def pointerdown_def selectBuilding_def handleRightClick_def
        onBuilding_def sendSoldiers_def setSelected_def new_Building_def owner_of_def Let_def)

subsection \<open>The garrison after a capture\<close>

text \<open>
  Claim C10. A capture is the branch of \<open>resolveArrival\<close> that calls \<open>setOwnership\<close>.
  On a building whose troop count is not negative a capture happens only at troop count
  0, and the troop count right after it is 1. The buildings of a match never hold a
  negative count when an arrival is resolved: in any tick after any events, at any point
  of the soldier loop (after the buildings were updated and the first \<open>k\<close> entries of
  \<open>activeSoldiers\<close> were processed), a capture of any building leaves it with 1 troop.
\<close>

theorem garrison_after_capture_is_one:
  "(0 \<le> soldiers b \<and> captures p b \<longrightarrow>
      soldiers (resolveArrival p b) = 1
      \<and> ownership (resolveArrival p b) = owner_of p
      \<and> soldiers b = 0)
   \<and> (\<forall>b' \<in> set (fst (stepSoldiers delta (take k (activeSoldiers (run es (create clock0 pos))))
                        (updateBuildings clock (buildings (run es (create clock0 pos))), []))).
         captures q b' \<longrightarrow> soldiers (resolveArrival q b') = 1)"
proof -
  let ?w = "run es (create clock0 pos)"
  have "nonneg (buildings ?w)" by (rule run_nonneg[OF create_nonneg])
  then have "nonneg (updateBuildings clock (buildings ?w))" by (rule updateBuildings_nonneg)
  then have "nonneg (fst (stepSoldiers delta (take k (activeSoldiers ?w))
                        (updateBuildings clock (buildings ?w), [])))"
    using stepSoldiers_nonneg[of "(updateBuildings clock (buildings ?w), [])"] by simp
  then have mid: "\<forall>b' \<in> set (fst (stepSoldiers delta (take k (activeSoldiers ?w))
                        (updateBuildings clock (buildings ?w), []))). 0 \<le> soldiers b'"
    by (simp add: nonneg_def list_all_iff)
  have one: "0 \<le> soldiers c \<Longrightarrow> captures r c \<Longrightarrow>
      soldiers (resolveArrival r c) = 1 \<and> ownership (resolveArrival r c) = owner_of r
      \<and> soldiers c = 0" for r c
    by (auto simp: captures_def resolveArrival_def setOwnership_def Let_def)
  from mid one show ?thesis by blast
qed

theorem garrison_after_capture_is_one_witness:
  "0 \<le> soldiers ((new_Building 0 0 0 Neutral)\<lparr> soldiers := 0 \<rparr>)
   \<and> captures True ((new_Building 0 0 0 Neutral)\<lparr> soldiers := 0 \<rparr>)
   \<and> soldiers (resolveArrival True ((new_Building 0 0 0 Neutral)\<lparr> soldiers := 0 \<rparr>)) = 1
   \<and> ownership (resolveArrival True ((new_Building 0 0 0 Neutral)\<lparr> soldiers := 0 \<rparr>)) = Player"
  using garrison_after_capture_is_one
          [of "(new_Building 0 0 0 Neutral)\<lparr> soldiers := 0 \<rparr>" True 16 0 "[]"
              "\<lambda>i. 0" "\<lambda>i. (0, 0)" "\<lambda>i. 0" True]
  by (simp add: captures_def new_Building_def owner_of_def)

subsection \<open>Generation\<close>

text \<open>
  Claim C4, as stated: a level 1 player building that is not upgrading gains 2 troops in a
  tick that comes 2500 ms after the last generation, and 500 ms are carried over. The code
  has one \<open>if\<close>, not a loop, and sets \<open>lastUpdate\<close> to the time of the tick: the
  building gains 1 troop, and the next interval is counted from the tick.
\<close>

theorem generation_2500_counterexample:
  "soldiers (Building_update 2500 (new_Building 0 100 100 Player))
     \<noteq> soldiers (new_Building 0 100 100 Player) + 2
   \<and> 2500 - lastUpdate (Building_update 2500 (new_Building 0 100 100 Player)) \<noteq> 500"
  by (simp add: Building_update_def advanceUpgrade_def generationTime_def new_Building_def Let_def)

text \<open>
  Claim C4, amended: such a tick adds exactly 1 troop and sets \<open>lastUpdate\<close> to the time
  of the tick, so that nothing of the 2500 ms is carried over.
\<close>

theorem generation_2500_gains_one:
  assumes "ownership b = Player" and "level b = 1" and "\<not> isUpgrading b"
      and "now - lastUpdate b = 2500"
  shows "soldiers (Building_update now b) = soldiers b + 1
       \<and> lastUpdate (Building_update now b) = now"
  using assms
  by (simp add: Building_update_def advanceUpgrade_def generationTime_def Let_def)

theorem generation_2500_gains_one_witness:
  "soldiers (Building_update 2500 (new_Building 0 100 100 Player)) = 11
   \<and> lastUpdate (Building_update 2500 (new_Building 0 100 100 Player)) = 2500"
  using generation_2500_gains_one [of "new_Building 0 100 100 Player" 2500]
  by (simp add: new_Building_def)

subsection \<open>Upgrades\<close>

text \<open>
  What \<open>startUpgrade\<close> does: nothing while an upgrade runs or when the troops do not
  cover the cost \<open>5 * level\<close>; otherwise it takes the cost, sets the flag and zeroes the
  progress. The level is not read for anything but the cost.
\<close>

lemma startUpgrade_cases:
  "startUpgrade b =
     (if isUpgrading b \<or> soldiers b < 5 * level b then b
      else b\<lparr> soldiers := soldiers b - 5 * level b, isUpgrading := True, upgradeProgress := 0 \<rparr>)"
  by (simp add: startUpgrade_def Let_def)

text \<open>
  The AI asks for the level itself before it calls \<open>startUpgrade\<close> (line 1148): the
  decision of a building at level 3 or more never starts an upgrade.
\<close>

lemma decideForBuilding_respects_cap:
  assumes "i < length (buildings w)" and "3 \<le> level (buildings w ! i)"
  shows "isUpgrading (buildings (decideForBuilding rnd i w) ! i) = isUpgrading (buildings w ! i)"
proof -
  have send: "isUpgrading (buildings (sendSoldiers i t n w) ! i) = isUpgrading (buildings w ! i)"
    for t n
    using assms(1) by (simp add: sendSoldiers_def Let_def)
  show ?thesis
    using assms(2) send
    by (simp add: decideForBuilding_def attackTarget_def expandToNeutral_def Let_def
          split: decision.splits)
qed

text \<open>
  Claim C5 says that \<open>startUpgrade\<close> does nothing once the level has reached 3. The
  method has no such check, and the \<open>pointerdown\<close> listener calls it on a double click
  without one: a player building at level 3 with 20 troops pays 15, starts upgrading and
  is at level 4 when 3000 ms have passed.
\<close>

theorem startUpgrade_at_level_cap:
  "startUpgrade ((new_Building 0 100 100 Player)\<lparr> level := 3, soldiers := 20 \<rparr>)
     = (new_Building 0 100 100 Player)
         \<lparr> level := 3, soldiers := 5, isUpgrading := True, upgradeProgress := 0 \<rparr>
   \<and> level (Building_update 3000
        (startUpgrade ((new_Building 0 100 100 Player)\<lparr> level := 3, soldiers := 20 \<rparr>))) = 4
   \<and> buildings (pointerdown 0 False 1100
        ((create (\<lambda>i. 0) (\<lambda>i. (0, 0)))
           \<lparr> buildings := [(new_Building 0 100 100 Player)
                             \<lparr> level := 3, soldiers := 20, lastClickTime := 1000 \<rparr>] \<rparr>))
     = [(new_Building 0 100 100 Player)
          \<lparr> level := 3, soldiers := 5, isUpgrading := True, upgradeProgress := 0,
            lastClickTime := 1100 \<rparr>]"
  by (simp add: startUpgrade_def new_Building_def Building_update_def advanceUpgrade_def
        generationTime_def pointerdown_def onBuilding_def create_def Let_def)

subsection \<open>A soldier created on its target\<close>

lemma jadd_NaN_right [simp]: "jadd a NaN = NaN"
  by (cases a) simp_all

lemma jmul_NaN_right [simp]: "jmul a NaN = NaN"
  by (cases a) simp_all

lemma Soldier_update_NaN:
  "vx s = NaN \<Longrightarrow> \<not> snd (Soldier_update delta s) \<and> vx (fst (Soldier_update delta s)) = NaN"
  by (simp add: Soldier_update_def Let_def jsub_def)

lemma new_Soldier_degenerate:
  "vx (new_Soldier x y x y p) = NaN \<and> vy (new_Soldier x y x y p) = NaN"
  by (simp add: new_Soldier_def jdiv_def Let_def)

text \<open>
  A live soldier whose velocity is \<open>NaN\<close> is pushed to \<open>stillActiveSoldiers\<close> by
  every tick, with a velocity that is \<open>NaN\<close> again.
\<close>

lemma NaN_soldier_stays:
  assumes "vx s = NaN" and "sol_active s"
  shows "\<exists>s'. processSoldier delta (Real_Soldier s) (bs, still) = (bs, still @ [Real_Soldier s'])
              \<and> vx s' = NaN \<and> sol_active s'"
proof -
  obtain s1 r where u: "Soldier_update delta s = (s1, r)" by (cases "Soldier_update delta s")
  with Soldier_update_NaN[OF assms(1), of delta] have "\<not> r" and "vx s1 = NaN" by simp_all
  moreover have "sol_active s1"
    using u assms(2) by (auto simp: Soldier_update_def Let_def)
  ultimately show ?thesis using u assms(2) by simp
qed

lemma new_Soldier_finite:
  assumes "x \<noteq> tX \<or> y \<noteq> tY"
  shows "is_finite (vx (new_Soldier x y tX tY p)) \<and> is_finite (vy (new_Soldier x y tX tY p))"
proof -
  have "(tX - x) * (tX - x) + (tY - y) * (tY - y) \<noteq> 0"
    using assms by (auto simp: sum_squares_eq_zero_iff)
  then show ?thesis
    by (simp add: new_Soldier_def jdiv_def Let_def)
qed

text \<open>
  Claim C7 says that the constructor guards the case of a source equal to the target and
  that such a unit counts as arrived. The constructor divides by the distance without
  looking at it. For a soldier created at (100, 100) with the target (100, 100) both
  velocity components are \<open>NaN\<close>; its first update makes the position \<open>NaN\<close> and does
  not report arrival, and by \<open>NaN_soldier_stays\<close> no later update does: the soldier stays
  in \<open>activeSoldiers\<close>.
\<close>

theorem degenerate_soldier_velocity_NaN:
  "vx (new_Soldier 100 100 100 100 True) = NaN
   \<and> vy (new_Soldier 100 100 100 100 True) = NaN
   \<and> \<not> is_finite (vx (new_Soldier 100 100 100 100 True))
   \<and> \<not> snd (Soldier_update 16 (new_Soldier 100 100 100 100 True))
   \<and> sol_x (fst (Soldier_update 16 (new_Soldier 100 100 100 100 True))) = NaN"
  by (simp add: new_Soldier_def jdiv_def Soldier_update_def jsub_def Let_def)

subsection \<open>Terminal detection\<close>

text \<open>Only \<open>checkGameOver\<close> writes \<open>gameOver\<close> or calls \<open>showGameOverModal\<close>.\<close>

lemma onBuilding_verdict [simp]:
  "gameOver (onBuilding i f w) = gameOver w" "reports (onBuilding i f w) = reports w"
  by (simp_all add: onBuilding_def)

lemma sendSoldiers_verdict [simp]:
  "gameOver (sendSoldiers src tgt n w) = gameOver w"
  "reports (sendSoldiers src tgt n w) = reports w"
  by (simp_all add: sendSoldiers_def Let_def)

lemma spawnSoldier_verdict [simp]:
  "gameOver (spawnSoldier k rnd w) = gameOver w"
  "reports (spawnSoldier k rnd w) = reports w"
  by (simp_all add: spawnSoldier_def Let_def split: prod.splits)

lemma decideForBuilding_verdict [simp]:
  "gameOver (decideForBuilding rnd i w) = gameOver w"
  "reports (decideForBuilding rnd i w) = reports w"
  by (simp_all add: decideForBuilding_def attackTarget_def expandToNeutral_def Let_def
        split: decision.splits)

lemma fold_decide_verdict [simp]:
  "gameOver (fold (decideForBuilding rnd) js w) = gameOver w"
  "reports (fold (decideForBuilding rnd) js w) = reports w"
  by (induction js arbitrary: w) simp_all

lemma AI_update_verdict [simp]:
  "gameOver (AI_update time rnd w) = gameOver w"
  "reports (AI_update time rnd w) = reports w"
  by (simp_all add: AI_update_def makeDecisions_def Let_def)

lemma selectBuilding_verdict [simp]:
  "gameOver (selectBuilding i w) = gameOver w"
  "reports (selectBuilding i w) = reports w"
  by (simp_all add: selectBuilding_def Let_def split: option.splits)

lemma handleRightClick_verdict [simp]:
  "gameOver (handleRightClick i w) = gameOver w"
  "reports (handleRightClick i w) = reports w"
  by (simp_all add: handleRightClick_def split: option.splits)

lemma pointerdown_verdict [simp]:
  "gameOver (pointerdown i r t w) = gameOver w"
  "reports (pointerdown i r t w) = reports w"
  by (simp_all add: pointerdown_def)

lemma checkGameOver_terminal: "gameOver w \<Longrightarrow> checkGameOver w = w"
  by (simp add: checkGameOver_def)

lemma checkGameOver_verdict_once: "verdict_once w \<Longrightarrow> verdict_once (checkGameOver w)"
  by (auto simp: verdict_once_def checkGameOver_def Let_def)

lemma MainScene_update_terminal: "gameOver w \<Longrightarrow> MainScene_update time delta clock rnd w = w"
  by (simp add: MainScene_update_def)

lemma MainScene_update_verdict_once:
  "verdict_once w \<Longrightarrow> verdict_once (MainScene_update time delta clock rnd w)"
proof (cases "gameOver w")
  case True
  assume "verdict_once w"
  with True show ?thesis by (simp add: MainScene_update_terminal)
next
  case False
  assume v: "verdict_once w"
  obtain bs still where st:
    "stepSoldiers delta (activeSoldiers w) (updateBuildings clock (buildings w), []) = (bs, still)"
    by (cases "stepSoldiers delta (activeSoldiers w) (updateBuildings clock (buildings w), [])")
  have "verdict_once (w\<lparr> buildings := bs, activeSoldiers := still \<rparr>)"
    using v by (simp add: verdict_once_def)
  then have "verdict_once (checkGameOver (w\<lparr> buildings := bs, activeSoldiers := still \<rparr>))"
    by (rule checkGameOver_verdict_once)
  then show ?thesis
    using False st by (simp add: MainScene_update_def verdict_once_def)
qed

lemma step_verdict_once: "verdict_once w \<Longrightarrow> verdict_once (step e w)"
  by (cases e) (simp_all add: MainScene_update_verdict_once, simp_all add: verdict_once_def)

lemma run_verdict_once: "verdict_once w \<Longrightarrow> verdict_once (run es w)"
  unfolding run_def by (induction es arbitrary: w) (simp_all add: step_verdict_once)

lemma step_terminal: "gameOver w \<Longrightarrow> gameOver (step e w) \<and> reports (step e w) = reports w"
  by (cases e) (simp_all add: MainScene_update_terminal)

lemma run_terminal: "gameOver w \<Longrightarrow> gameOver (run es w) \<and> reports (run es w) = reports w"
  unfolding run_def
proof (induction es arbitrary: w)
  case Nil
  then show ?case by simp
next
  case (Cons e es)
  from step_terminal[OF Cons.prems, of e] Cons.IH[of "step e w"] show ?case by simp
qed

lemma run_append: "run (es @ es') w = run es' (run es w)"
  by (simp add: run_def)

lemma create_verdict_once: "verdict_once (create clock pos)"
  by (simp add: verdict_once_def create_def)

text \<open>
  Claim C6. Once \<open>gameOver\<close> is set, \<open>checkGameOver\<close> and the whole tick leave the scene
  as it is. Before that, \<open>checkGameOver\<close> sets the flag and reports a win when the player
  owns an active building and the enemy owns none, a loss in the mirrored case, and does
  nothing when both own one or neither does. A new scene is not terminal and has
  reported nothing. Whatever events happen, the number of reports is 1 when the scene is
  terminal and 0 when it is not, and after the scene became terminal no later event
  clears the flag or reports again.
\<close>

theorem terminal_detection:
  "(gameOver w \<longrightarrow> checkGameOver w = w \<and> MainScene_update time delta clock rnd w = w)
   \<and> (\<not> gameOver w \<and> hasBuildings Player (buildings w) \<and> \<not> hasBuildings Enemy (buildings w) \<longrightarrow>
        checkGameOver w = w\<lparr> gameOver := True, reports := reports w @ [True] \<rparr>)
   \<and> (\<not> gameOver w \<and> hasBuildings Enemy (buildings w) \<and> \<not> hasBuildings Player (buildings w) \<longrightarrow>
        checkGameOver w = w\<lparr> gameOver := True, reports := reports w @ [False] \<rparr>)
   \<and> (hasBuildings Player (buildings w) = hasBuildings Enemy (buildings w) \<longrightarrow>
        checkGameOver w = w)
   \<and> \<not> gameOver (create clock' pos) \<and> reports (create clock' pos) = []
   \<and> (length (reports w) = (if gameOver w then 1 else 0) \<longrightarrow>
        length (reports (run es w)) = (if gameOver (run es w) then 1 else 0))
   \<and> (gameOver (run es w) \<longrightarrow>
        gameOver (run (es @ es') w) \<and> reports (run (es @ es') w) = reports (run es w))"
proof -
  have once: "length (reports w) = (if gameOver w then 1 else 0) \<longrightarrow>
        length (reports (run es w)) = (if gameOver (run es w) then 1 else 0)"
    using run_verdict_once[of w es] by (simp add: verdict_once_def)
  have sticky: "gameOver (run es w) \<longrightarrow>
        gameOver (run (es @ es') w) \<and> reports (run (es @ es') w) = reports (run es w)"
    using run_terminal[of "run es w" es'] by (simp add: run_append)
  have start: "\<not> gameOver (create clock' pos) \<and> reports (create clock' pos) = []"
    by (simp add: create_def)
  have local: "(gameOver w \<longrightarrow> checkGameOver w = w \<and> MainScene_update time delta clock rnd w = w)
   \<and> (\<not> gameOver w \<and> hasBuildings Player (buildings w) \<and> \<not> hasBuildings Enemy (buildings w) \<longrightarrow>
        checkGameOver w = w\<lparr> gameOver := True, reports := reports w @ [True] \<rparr>)
   \<and> (\<not> gameOver w \<and> hasBuildings Enemy (buildings w) \<and> \<not> hasBuildings Player (buildings w) \<longrightarrow>
        checkGameOver w = w\<lparr> gameOver := True, reports := reports w @ [False] \<rparr>)
   \<and> (hasBuildings Player (buildings w) = hasBuildings Enemy (buildings w) \<longrightarrow>
        checkGameOver w = w)"
    by (auto simp: checkGameOver_def MainScene_update_def Let_def)
  from local start once sticky show ?thesis by blast
qed

text \<open>
  The scenario of the specification: one player building and no enemy building. The
  first tick reports the win, and two more ticks add no report.
\<close>

theorem terminal_detection_witness:
  "reports (checkGameOver
       ((create (\<lambda>i. 0) (\<lambda>i. (0, 0)))\<lparr> buildings := [new_Building 0 0 0 Player] \<rparr>)) = [True]
   \<and> reports (run [Tick 16 16 (\<lambda>i. 16) (\<lambda>i. (0, 0, 0))]
       ((create (\<lambda>i. 0) (\<lambda>i. (0, 0)))\<lparr> buildings := [new_Building 0 0 0 Player] \<rparr>)) = [True]
   \<and> reports (run ([Tick 16 16 (\<lambda>i. 16) (\<lambda>i. (0, 0, 0))]
                    @ [Tick 32 16 (\<lambda>i. 32) (\<lambda>i. (0, 0, 0)), Tick 2000 16 (\<lambda>i. 2000) (\<lambda>i. (0, 0, 0))])
       ((create (\<lambda>i. 0) (\<lambda>i. (0, 0)))\<lparr> buildings := [new_Building 0 0 0 Player] \<rparr>)) = [True]"
  using terminal_detection
     [of "(create (\<lambda>i. 0) (\<lambda>i. (0, 0)))\<lparr> buildings := [new_Building 0 0 0 Player] \<rparr>"
         16 16 "\<lambda>i. 16" "\<lambda>i. (0, 0, 0)" "\<lambda>i. 0" "\<lambda>i. (0, 0)"
         "[Tick 16 16 (\<lambda>i. 16) (\<lambda>i. (0, 0, 0))]"
         "[Tick 32 16 (\<lambda>i. 32) (\<lambda>i. (0, 0, 0)), Tick 2000 16 (\<lambda>i. 2000) (\<lambda>i. (0, 0, 0))]"]
  by (simp add: run_def MainScene_update_def updateBuildings_def Building_update_def
        advanceUpgrade_def generationTime_def checkGameOver_def hasBuildings_def AI_update_def
        create_def new_Building_def setDifficulty_def new_AIController_def
        applyDifficultySettings_def Let_def)

subsection \<open>Dispatch\<close>

lemma isSoldier_deactivate [simp]: "isSoldier (deactivate k t) = isSoldier t"
  by (cases t) simp_all

lemma filter_isSoldier_deactivate [simp]:
  "filter isSoldier (map (deactivate k) ts) = map (deactivate k) (filter isSoldier ts)"
  by (induction ts) simp_all

lemma spawnSoldier_fires:
  assumes "k < length (pendingSpawns w)"
  shows "soldierCount (spawnSoldier k rnd w) = Suc (soldierCount w)"
    and "pendingSpawns (spawnSoldier k rnd w)
           = take k (pendingSpawns w) @ drop (Suc k) (pendingSpawns w)"
  using assms
  by (simp_all add: spawnSoldier_def soldierCount_def Let_def split: prod.splits)

lemma fire_all:
  "pendingSpawns v = old @ new \<Longrightarrow> length rs = length new \<Longrightarrow>
   pendingSpawns (fold (spawnSoldier (length old)) rs v) = old
   \<and> soldierCount (fold (spawnSoldier (length old)) rs v) = soldierCount v + length new"
proof (induction rs arbitrary: v new)
  case Nil
  then show ?case by simp
next
  case (Cons r rs)
  then obtain p ps where new: "new = p # ps" by (cases new) auto
  let ?v1 = "spawnSoldier (length old) r v"
  have k: "length old < length (pendingSpawns v)" using Cons.prems new by simp
  have "pendingSpawns ?v1 = old @ ps"
    using spawnSoldier_fires(2)[OF k, of r] Cons.prems(1) new by simp
  moreover have "length rs = length ps" using Cons.prems new by simp
  ultimately have "pendingSpawns (fold (spawnSoldier (length old)) rs ?v1) = old
     \<and> soldierCount (fold (spawnSoldier (length old)) rs ?v1) = soldierCount ?v1 + length ps"
    by (rule Cons.IH)
  then show ?case
    using spawnSoldier_fires(1)[OF k, of r] new by simp
qed

lemma sendSoldiers_noop:
  "min (soldiers (buildings w ! src)) n \<le> 0 \<Longrightarrow> sendSoldiers src tgt n w = w"
  by (auto simp: sendSoldiers_def Let_def)

lemma sendSoldiers_sends:
  assumes "src < length (buildings w)" and "tgt < length (buildings w)"
      and "0 < min (soldiers (buildings w ! src)) n"
  shows "soldiers (buildings (sendSoldiers src tgt n w) ! src)
           = soldiers (buildings w ! src) - min (soldiers (buildings w ! src)) n"
    and "soldierCount (sendSoldiers src tgt n w) = soldierCount w"
    and "\<exists>new. pendingSpawns (sendSoldiers src tgt n w) = pendingSpawns w @ new
           \<and> map sp_delay new = map (\<lambda>i. int i * 50) [0 ..< nat (min (soldiers (buildings w ! src)) n)]"
proof -
  have n: "\<not> n \<le> 0" and m: "\<not> min (soldiers (buildings w ! src)) n \<le> 0"
    using assms(3) by auto
  show "soldiers (buildings (sendSoldiers src tgt n w) ! src)
           = soldiers (buildings w ! src) - min (soldiers (buildings w ! src)) n"
    using assms(1,2) n m by (simp add: sendSoldiers_def Let_def)
  show "soldierCount (sendSoldiers src tgt n w) = soldierCount w"
    using assms(1,2) n m by (simp add: sendSoldiers_def Let_def soldierCount_def filter_map o_def)
  show "\<exists>new. pendingSpawns (sendSoldiers src tgt n w) = pendingSpawns w @ new
           \<and> map sp_delay new = map (\<lambda>i. int i * 50) [0 ..< nat (min (soldiers (buildings w ! src)) n)]"
    using assms(1,2) n m by (simp add: sendSoldiers_def Let_def o_def)
qed

text \<open>
  Claim C3. For two buildings of the scene, with \<open>c = min (soldiers src) n\<close>: if
  \<open>c \<le> 0\<close> the call changes nothing. Otherwise the source has \<open>c\<close> troops less when
  \<open>sendSoldiers\<close> returns, no \<open>Soldier\<close> exists yet, and \<open>c\<close> callbacks have joined the
  timer queue with the delays 0, 50, 100, ... ms; when these \<open>c\<close> callbacks have fired,
  whatever the random numbers they draw, there are exactly \<open>c\<close> more \<open>Soldier\<close> objects in
  \<open>activeSoldiers\<close> and the queue is what it was before the call.
\<close>

theorem dispatch_clamps_and_schedules:
  assumes src: "src < length (buildings w)" and tgt: "tgt < length (buildings w)"
  shows "(min (soldiers (buildings w ! src)) n \<le> 0 \<longrightarrow> sendSoldiers src tgt n w = w)
   \<and> (0 < min (soldiers (buildings w ! src)) n \<longrightarrow>
        soldiers (buildings (sendSoldiers src tgt n w) ! src)
          = soldiers (buildings w ! src) - min (soldiers (buildings w ! src)) n
      \<and> soldierCount (sendSoldiers src tgt n w) = soldierCount w
      \<and> (\<exists>new. pendingSpawns (sendSoldiers src tgt n w) = pendingSpawns w @ new
            \<and> map sp_delay new
                = map (\<lambda>i. int i * 50) [0 ..< nat (min (soldiers (buildings w ! src)) n)])
      \<and> (\<forall>rs. length rs = nat (min (soldiers (buildings w ! src)) n) \<longrightarrow>
            soldierCount (fold (spawnSoldier (length (pendingSpawns w))) rs
                            (sendSoldiers src tgt n w))
              = soldierCount w + nat (min (soldiers (buildings w ! src)) n)
          \<and> pendingSpawns (fold (spawnSoldier (length (pendingSpawns w))) rs
                            (sendSoldiers src tgt n w))
              = pendingSpawns w))"
proof (intro conjI impI allI)
  assume "min (soldiers (buildings w ! src)) n \<le> 0"
  then show "sendSoldiers src tgt n w = w" by (rule sendSoldiers_noop)
next
  assume pos: "0 < min (soldiers (buildings w ! src)) n"
  note sent = sendSoldiers_sends[OF src tgt pos]
  show "soldiers (buildings (sendSoldiers src tgt n w) ! src)
          = soldiers (buildings w ! src) - min (soldiers (buildings w ! src)) n"
    by (rule sent(1))
  show "soldierCount (sendSoldiers src tgt n w) = soldierCount w" by (rule sent(2))
  show "\<exists>new. pendingSpawns (sendSoldiers src tgt n w) = pendingSpawns w @ new
            \<and> map sp_delay new
                = map (\<lambda>i. int i * 50) [0 ..< nat (min (soldiers (buildings w ! src)) n)]"
    by (rule sent(3))
  fix rs :: "(real \<times> real \<times> real \<times> real) list"
  assume len: "length rs = nat (min (soldiers (buildings w ! src)) n)"
  from sent(3) obtain new where new:
    "pendingSpawns (sendSoldiers src tgt n w) = pendingSpawns w @ new"
    "map sp_delay new = map (\<lambda>i. int i * 50) [0 ..< nat (min (soldiers (buildings w ! src)) n)]"
    by blast
  from new(2) have "length new = nat (min (soldiers (buildings w ! src)) n)"
    by (metis length_map length_upt minus_nat.diff_0)
  with len have "length rs = length new" by simp
  from fire_all[OF new(1) this] sent(2) \<open>length new = _\<close>
  show "soldierCount (fold (spawnSoldier (length (pendingSpawns w))) rs
                            (sendSoldiers src tgt n w))
              = soldierCount w + nat (min (soldiers (buildings w ! src)) n)"
    and "pendingSpawns (fold (spawnSoldier (length (pendingSpawns w))) rs
                            (sendSoldiers src tgt n w))
              = pendingSpawns w"
    by simp_all
qed

theorem dispatch_clamps_and_schedules_witness:
  "soldiers (buildings (sendSoldiers 0 8 3 (create (\<lambda>i. 0) (\<lambda>i. (real i * 100, 0)))) ! 0) = 7
   \<and> soldierCount (fold (spawnSoldier 0) [(0, 0, 0, 0), (1 / 2, 1 / 2, 1 / 2, 1 / 2), (0, 0, 0, 0)]
        (sendSoldiers 0 8 3 (create (\<lambda>i. 0) (\<lambda>i. (real i * 100, 0))))) = 3
   \<and> sendSoldiers 0 8 0 (create (\<lambda>i. 0) (\<lambda>i. (real i * 100, 0)))
        = create (\<lambda>i. 0) (\<lambda>i. (real i * 100, 0))"
proof -
  let ?W = "create (\<lambda>i. 0) (\<lambda>i. (real i * 100, 0))"
  have src: "0 < length (buildings ?W)" and tgt: "8 < length (buildings ?W)"
    by (simp_all add: create_def)
  have g: "soldiers (buildings ?W ! 0) = 10"
    by (simp add: create_def new_Building_def)
  have e: "pendingSpawns ?W = []" "soldierCount ?W = 0"
    by (simp_all add: create_def soldierCount_def)
  from dispatch_clamps_and_schedules[OF src tgt, of 3]
  have a: "soldiers (buildings (sendSoldiers 0 8 3 ?W) ! 0) = 7"
    and b: "\<forall>rs. length rs = 3 \<longrightarrow>
              soldierCount (fold (spawnSoldier 0) rs (sendSoldiers 0 8 3 ?W)) = 3"
    by (simp_all add: g e)
  from dispatch_clamps_and_schedules[OF src tgt, of 0]
  have c: "sendSoldiers 0 8 0 ?W = ?W" by (simp add: g)
  have b': "soldierCount (fold (spawnSoldier 0)
                [(0, 0, 0, 0), (1 / 2, 1 / 2, 1 / 2, 1 / 2), (0, 0, 0, 0)]
                (sendSoldiers 0 8 3 ?W)) = 3"
    by (rule b[rule_format]) simp
  show ?thesis by (rule conjI[OF a conjI[OF b' c]])
qed

subsection \<open>The sendable cap of the AI\<close>

text \<open>
  A decision changes no building but the deciding one, and neither an owner nor the
  controller; so the cap of a building is the same at its turn as at the start of the
  pass.
\<close>

lemma only_changed_refl [simp]: "only_changed j bs bs"
  by (simp add: only_changed_def)

lemma only_changed_update:
  "ownership b' = ownership (bs ! j) \<Longrightarrow> active b' = active (bs ! j) \<Longrightarrow>
   only_changed j bs (bs[j := b'])"
  by (simp add: only_changed_def)

lemma startUpgrade_same [simp]:
  "ownership (startUpgrade b) = ownership b" "active (startUpgrade b) = active b"
  by (simp_all add: startUpgrade_def Let_def)

lemma sendSoldiers_only_changed:
  "only_changed src (buildings w) (buildings (sendSoldiers src tgt n w))"
  by (simp add: sendSoldiers_def Let_def only_changed_update)

lemma decideForBuilding_only_changed:
  "only_changed j (buildings w) (buildings (decideForBuilding rnd j w))"
  by (simp add: decideForBuilding_def attackTarget_def expandToNeutral_def Let_def
        onBuilding_def sendSoldiers_only_changed only_changed_update
        split: decision.splits)

lemma sendSoldiers_ai [simp]: "aiController (sendSoldiers src tgt n w) = aiController w"
  by (simp add: sendSoldiers_def Let_def)

lemma decideForBuilding_ai [simp]: "aiController (decideForBuilding rnd j w) = aiController w"
  by (simp add: decideForBuilding_def attackTarget_def expandToNeutral_def Let_def
        onBuilding_def split: decision.splits)

lemma buildingsOf_only_changed:
  assumes "only_changed j bs bs'"
  shows "buildingsOf own bs' = buildingsOf own bs"
proof -
  have "active (bs' ! k) = active (bs ! k) \<and> ownership (bs' ! k) = ownership (bs ! k)"
    if "k < length bs" for k
    using assms that by (cases "k = j") (auto simp: only_changed_def)
  moreover have "length bs' = length bs" using assms by (simp add: only_changed_def)
  ultimately show ?thesis
    unfolding buildingsOf_def by (auto intro!: filter_cong)
qed

lemma buildingsOf_mem:
  "k \<in> set (buildingsOf own bs) \<longleftrightarrow> k < length bs \<and> active (bs ! k) \<and> ownership (bs ! k) = own"
  by (auto simp: buildingsOf_def)

lemma maxSoldiersToSend_only_changed:
  assumes ch: "only_changed j bs bs'" and j: "j \<in> set (buildingsOf Enemy bs)"
      and i: "i < length bs" and ne: "i \<noteq> j"
  shows "maxSoldiersToSend ai bs' (bs' ! i) = maxSoldiersToSend ai bs (bs ! i)"
proof -
  have same_i: "bs' ! i = bs ! i" using ch i ne by (simp add: only_changed_def)
  have m: "map ((!) bs') (buildingsOf Player bs) = map ((!) bs) (buildingsOf Player bs)"
  proof (rule map_cong[OF refl])
    fix k assume "k \<in> set (buildingsOf Player bs)"
    then have "k < length bs" and "ownership (bs ! k) = Player" by (simp_all add: buildingsOf_mem)
    moreover from j have "ownership (bs ! j) = Enemy" by (simp add: buildingsOf_mem)
    ultimately have "k \<noteq> j" by auto
    with ch \<open>k < length bs\<close> show "bs' ! k = bs ! k" by (simp add: only_changed_def)
  qed
  show ?thesis
    by (simp only: maxSoldiersToSend_def buildingsOf_only_changed[OF ch] same_i m)
qed

lemma decideForBuilding_holds:
  "maxSoldiersToSend (aiController w) (buildings w) (buildings w ! i) \<le> 1 \<Longrightarrow>
   decideForBuilding rnds i w = w"
  by (auto simp: evaluateStrategicOptions_def decideForBuilding_def Let_def split: prod.splits)

lemma fold_decide_holds:
  assumes "distinct js" and "set js \<subseteq> set (buildingsOf Enemy (buildings w))"
      and "i < length (buildings w)"
      and "maxSoldiersToSend (aiController w) (buildings w) (buildings w ! i) \<le> 1"
  shows "buildings (fold (decideForBuilding rnds) js w) ! i = buildings w ! i"
  using assms
proof (induction js arbitrary: w)
  case Nil
  then show ?case by simp
next
  case (Cons j js)
  let ?w1 = "decideForBuilding rnds j w"
  have ch: "only_changed j (buildings w) (buildings ?w1)" by (rule decideForBuilding_only_changed)
  have len: "length (buildings ?w1) = length (buildings w)" using ch by (simp add: only_changed_def)
  have enemy: "buildingsOf Enemy (buildings ?w1) = buildingsOf Enemy (buildings w)"
    by (rule buildingsOf_only_changed[OF ch])
  have j: "j \<in> set (buildingsOf Enemy (buildings w))" using Cons.prems(2) by simp
  show ?case
  proof (cases "i = j")
    case True
    then have same: "?w1 = w" using Cons.prems(4) by (simp add: decideForBuilding_holds)
    have "buildings (fold (decideForBuilding rnds) js w) ! i = buildings w ! i"
      using Cons.prems by (intro Cons.IH) auto
    with same show ?thesis by simp
  next
    case False
    have cap: "maxSoldiersToSend (aiController ?w1) (buildings ?w1) (buildings ?w1 ! i) \<le> 1"
      using maxSoldiersToSend_only_changed[OF ch j Cons.prems(3) False] Cons.prems(4) by simp
    have "buildings (fold (decideForBuilding rnds) js ?w1) ! i = buildings ?w1 ! i"
      using Cons.prems cap len enemy by (intro Cons.IH) auto
    moreover have "buildings ?w1 ! i = buildings w ! i"
      using ch Cons.prems(3) False by (simp add: only_changed_def)
    ultimately show ?thesis by simp
  qed
qed

lemma distinct_buildingsOf [simp]: "distinct (buildingsOf own bs)"
  by (simp add: buildingsOf_def)

lemma maxSoldiersToSend_lastDecisionTime [simp]:
  "maxSoldiersToSend (ai\<lparr> lastDecisionTime := t \<rparr>) bs b = maxSoldiersToSend ai bs b"
  by (simp add: maxSoldiersToSend_def)

lemma AI_update_holds:
  assumes "i < length (buildings w)"
      and "maxSoldiersToSend (aiController w) (buildings w) (buildings w ! i) \<le> 1"
  shows "buildings (AI_update time rnds w) ! i = buildings w ! i"
proof -
  let ?w0 = "w\<lparr> aiController := (aiController w)\<lparr> lastDecisionTime := time \<rparr> \<rparr>"
  have "buildings (fold (decideForBuilding rnds) (buildingsOf Enemy (buildings ?w0)) ?w0) ! i
          = buildings ?w0 ! i"
    using assms by (intro fold_decide_holds) simp_all
  then show ?thesis
    by (simp add: AI_update_def makeDecisions_def Let_def)
qed

text \<open>
  Claim C8. The cap is \<open>max 1 (floor (soldiers * (1 - minSoldiersToKeep * threatLevel)))\<close>,
  with the threat level computed from the player's buildings. When it is at most 1,
  \<open>evaluateStrategicOptions\<close> answers "hold" whatever \<open>Math.random()\<close> returns, and
  \<open>decideForBuilding\<close> leaves the scene as it is: no dispatch, no upgrade. Over a whole
  pass of \<open>AIController.update\<close>, a building whose cap is at most 1 is after the pass
  what it was before: it has sent no troops and started no upgrade.
\<close>

theorem ai_holds_when_cap_at_most_one:
  "maxSoldiersToSend ai bs b
     = max 1 \<lfloor>real_of_int (soldiers b)
               * (1 - minSoldiersToKeep ai
                        * calculateThreatLevel b (map ((!) bs) (buildingsOf Player bs)))\<rfloor>
   \<and> (maxSoldiersToSend ai bs b \<le> 1 \<longrightarrow> evaluateStrategicOptions ai bs b rnd = Hold)
   \<and> (maxSoldiersToSend (aiController w) (buildings w) (buildings w ! i) \<le> 1 \<longrightarrow>
        decideForBuilding rnds i w = w)
   \<and> (i < length (buildings w)
        \<and> maxSoldiersToSend (aiController w) (buildings w) (buildings w ! i) \<le> 1 \<longrightarrow>
        buildings (AI_update time rnds w) ! i = buildings w ! i)"
proof -
  have "maxSoldiersToSend ai bs b \<le> 1 \<longrightarrow> evaluateStrategicOptions ai bs b rnd = Hold"
    by (auto simp: evaluateStrategicOptions_def Let_def split: prod.splits)
  moreover have "maxSoldiersToSend ai bs b
     = max 1 \<lfloor>real_of_int (soldiers b)
               * (1 - minSoldiersToKeep ai
                        * calculateThreatLevel b (map ((!) bs) (buildingsOf Player bs)))\<rfloor>"
    by (simp add: maxSoldiersToSend_def)
  ultimately show ?thesis
    using decideForBuilding_holds[of w i rnds] AI_update_holds[of i w time rnds] by blast
qed

text \<open>
  The scenario of the specification: threat level 1, \<open>minSoldiersToKeep = 0.5\<close> (easy),
  2 troops; the cap is 1 and the building holds.
\<close>

theorem ai_holds_when_cap_at_most_one_witness:
  "maxSoldiersToSend (setDifficulty Easy new_AIController)
       [(new_Building 0 0 0 Enemy)\<lparr> soldiers := 2 \<rparr>, (new_Building 0 0 0 Player)\<lparr> soldiers := 30 \<rparr>]
       ((new_Building 0 0 0 Enemy)\<lparr> soldiers := 2 \<rparr>) = 1
   \<and> decideForBuilding (\<lambda>i. (0, 0, 0)) 0
       ((create (\<lambda>i. 0) (\<lambda>i. (0, 0)))
          \<lparr> buildings := [(new_Building 0 0 0 Enemy)\<lparr> soldiers := 2 \<rparr>,
                          (new_Building 0 0 0 Player)\<lparr> soldiers := 30 \<rparr>],
            aiController := setDifficulty Easy new_AIController \<rparr>)
     = (create (\<lambda>i. 0) (\<lambda>i. (0, 0)))
          \<lparr> buildings := [(new_Building 0 0 0 Enemy)\<lparr> soldiers := 2 \<rparr>,
                          (new_Building 0 0 0 Player)\<lparr> soldiers := 30 \<rparr>],
            aiController := setDifficulty Easy new_AIController \<rparr>
   \<and> buildings (AI_update 5000 (\<lambda>i. (0, 0, 0))
       ((create (\<lambda>i. 0) (\<lambda>i. (0, 0)))
          \<lparr> buildings := [(new_Building 0 0 0 Enemy)\<lparr> soldiers := 2 \<rparr>,
                          (new_Building 0 0 0 Player)\<lparr> soldiers := 30 \<rparr>],
            aiController := setDifficulty Easy new_AIController \<rparr>)) ! 0
     = (new_Building 0 0 0 Enemy)\<lparr> soldiers := 2 \<rparr>"
proof -
  let ?bs = "[(new_Building 0 0 0 Enemy)\<lparr> soldiers := 2 \<rparr>,
              (new_Building 0 0 0 Player)\<lparr> soldiers := 30 \<rparr>]"
  let ?ai = "setDifficulty Easy new_AIController"
  let ?W = "(create (\<lambda>i. 0) (\<lambda>i. (0, 0)))\<lparr> buildings := ?bs, aiController := ?ai \<rparr>"
  have player: "buildingsOf Player ?bs = [1]"
    by (simp add: buildingsOf_def new_Building_def)
  have threat: "calculateThreatLevel ((new_Building 0 0 0 Enemy)\<lparr> soldiers := 2 \<rparr>)
                  (map ((!) ?bs) (buildingsOf Player ?bs)) = 1"
    unfolding player
    by (simp add: calculateThreatLevel_def threatOf_def distanceBetween_def
          new_Building_def Let_def)
  have keep: "minSoldiersToKeep ?ai = 1 / 2"
    by (simp add: setDifficulty_def new_AIController_def applyDifficultySettings_def)
  note t = ai_holds_when_cap_at_most_one[of ?ai ?bs "(new_Building 0 0 0 Enemy)\<lparr> soldiers := 2 \<rparr>"
              "(0, 0, 0)" ?W 0 "\<lambda>i. (0, 0, 0)" 5000]
  have cap: "maxSoldiersToSend ?ai ?bs ((new_Building 0 0 0 Enemy)\<lparr> soldiers := 2 \<rparr>) = 1"
    using t unfolding threat keep by (simp add: new_Building_def)
  have "buildings ?W = ?bs" "aiController ?W = ?ai" by simp_all
  with t cap show ?thesis by simp
qed

end
